theory Spec2Isabelle
  imports Main "HOL-Library.Word"
begin

section \<open>Python values and dictionaries\<close>

text \<open>
  The values that travel through the custom-field document are JSON-shaped Python values.
  A Python \<^verbatim>\<open>dict\<close> keeps its keys in insertion order and holds each key once, so it is an
  association list; \<^verbatim>\<open>d.get(k, default)\<close> reads it, \<^verbatim>\<open>d[k] = v\<close> overwrites the
  value of a key that is present (the key keeps its place) and appends a key that is new.
\<close>

datatype pyval =
    PyNone
  | PyBool bool
  | PyInt int
  | PyStr string
  | PyList "pyval list"
  | PyDict "(string \<times> pyval) list"

type_synonym 'v dict = "(string \<times> 'v) list"

definition dict_get :: "'v dict \<Rightarrow> string \<Rightarrow> 'v \<Rightarrow> 'v" where
  "dict_get d k dflt = (case map_of d k of Some v \<Rightarrow> v | None \<Rightarrow> dflt)"

fun dict_setitem :: "'v dict \<Rightarrow> string \<Rightarrow> 'v \<Rightarrow> 'v dict" where
  "dict_setitem [] k v = [(k, v)]"
| "dict_setitem ((k', v') # d) k v =
     (if k' = k then (k, v) # d else (k', v') # dict_setitem d k v)"


section \<open>The user instance and its custom-field document\<close>

text \<open>
  \<^verbatim>\<open>users_sqla_model.py\<close>, lines 8 to 15 and 66 to 155. A \<^verbatim>\<open>User\<close> instance holds, in
  \<^verbatim>\<open>custom_fields\<close>, either \<^verbatim>\<open>None\<close> or a reference to an object. Whether a
  write builds a new dictionary or edits the old one in place is a question of object
  identity, so objects live in a store: a list of objects addressed by position, where
  creating an object appends it. The ORM's record of changed attributes
  (\<^verbatim>\<open>flag_modified\<close>, and every instrumented attribute assignment) is the set
  \<open>modified\<close>.
\<close>

datatype UserRole = ADMIN | USER

type_synonym uuid = "128 word"

text \<open>
  The request and response shape \<^verbatim>\<open>UserSchema\<close> of \<^verbatim>\<open>users_pyda_model.py\<close> (lines 5 to
  15); every field is required.
\<close>

record UserSchema =
  name :: string
  email :: string
  role :: UserRole
  is_active :: bool
  user_type :: string
  custom_type_definition_id :: uuid
  custom_fields :: pyval
  id :: uuid
  created_on :: int
  updated_on :: int

text \<open>The mapped instance: an attribute that has not been given a value reads as \<^verbatim>\<open>None\<close>.\<close>

type_synonym ref = nat

record user =
  id :: "uuid option"
  created_on :: "int option"
  updated_on :: "int option"
  name :: "string option"
  email :: "string option"
  role :: "UserRole option"
  is_active :: "bool option"
  user_type :: "string option"
  custom_type_definition_id :: "uuid option"
  custom_fields :: "ref option"

record 'o instance_state =
  heap :: "'o list"
  self :: user
  modified :: "string set"

text \<open>
  The states \<^verbatim>\<open>set_custom_field\<close> is modelled on: every object of the store is a
  dictionary, so \<^verbatim>\<open>custom_fields\<close> is \<^verbatim>\<open>None\<close> or a dictionary.
\<close>

type_synonym 'v pystate = "'v dict instance_state"

definition valid :: "'v pystate \<Rightarrow> bool" where
  "valid s = (case custom_fields (self s) of None \<Rightarrow> True | Some a \<Rightarrow> a < length (heap s))"

text \<open>The document an instance currently shows: \<^verbatim>\<open>None\<close>, or the dictionary its reference points to.\<close>

definition document :: "'v pystate \<Rightarrow> 'v dict option" where
  "document s = map_option (\<lambda>a. heap s ! a) (custom_fields (self s))"

text \<open>The primitive steps: creating a dictionary object, assigning the attribute, item assignment on an object, and \<^verbatim>\<open>flag_modified\<close>.\<close>

definition new_dict :: "'v dict \<Rightarrow> 'v pystate \<Rightarrow> ref \<times> 'v pystate" where
  "new_dict d s = (length (heap s), s\<lparr>heap := heap s @ [d]\<rparr>)"

definition setattr_custom_fields :: "ref option \<Rightarrow> 'v pystate \<Rightarrow> 'v pystate" where
  "setattr_custom_fields r s =
     s\<lparr>self := (self s)\<lparr>custom_fields := r\<rparr>, modified := insert ''custom_fields'' (modified s)\<rparr>"

definition setitem :: "ref \<Rightarrow> string \<Rightarrow> 'v \<Rightarrow> 'v pystate \<Rightarrow> 'v pystate" where
  "setitem a k v s = s\<lparr>heap := (heap s)[a := dict_setitem (heap s ! a) k v]\<rparr>"

definition flag_modified :: "string \<Rightarrow> 'v pystate \<Rightarrow> 'v pystate" where
  "flag_modified key s = s\<lparr>modified := insert key (modified s)\<rparr>"

text \<open>
  \<^verbatim>\<open>get_custom_field\<close> (lines 142 to 146). The column is \<^verbatim>\<open>JSONB\<close> and the schema field
  is \<^verbatim>\<open>Json\<close>, so the attribute may refer to any JSON value: a dictionary, an array, a
  string, a number or a boolean. The source tests only for \<^verbatim>\<open>None\<close> and then calls
  \<^verbatim>\<open>.get\<close>, which exists on a dictionary alone; on any other object the attribute lookup
  raises \<^verbatim>\<open>AttributeError\<close>. The function returns its result, or the error, together with
  the state it was called in: neither \<^verbatim>\<open>dict.get\<close> nor the failed lookup assigns anything.
\<close>

datatype 'v pyobject =
    Dict "'v dict"
  | JsonArray "pyval list"
  | JsonString string
  | JsonNumber int
  | JsonBool bool

datatype pyerror = AttributeError

fun is_dict :: "'v pyobject \<Rightarrow> bool" where
  "is_dict (Dict d) = True"
| "is_dict _ = False"

text \<open>What \<^verbatim>\<open>self.custom_fields\<close> evaluates to: \<^verbatim>\<open>None\<close>, or the object referred to.\<close>

definition attribute_value :: "'v pyobject instance_state \<Rightarrow> 'v pyobject option" where
  "attribute_value s = map_option (\<lambda>a. heap s ! a) (custom_fields (self s))"

definition get_custom_field ::
  "'v pyobject instance_state \<Rightarrow> string \<Rightarrow> 'v \<Rightarrow> (pyerror + 'v) \<times> 'v pyobject instance_state" where
  "get_custom_field s field_name dflt =
     (case custom_fields (self s) of
        Some a \<Rightarrow>
          (case heap s ! a of
             Dict d \<Rightarrow> (Inr (dict_get d field_name dflt), s)
           | _ \<Rightarrow> (Inl AttributeError, s))
      | None \<Rightarrow> (Inr dflt, s))"

text \<open>A state of dictionaries seen as a state of objects.\<close>

definition as_objects :: "'v pystate \<Rightarrow> 'v pyobject instance_state" where
  "as_objects s = \<lparr>heap = map Dict (heap s), self = self s, modified = modified s\<rparr>"

text \<open>
  \<^verbatim>\<open>set_custom_field\<close> (lines 148 to 155; the source defines it at module level, with the
  instance as its first argument). Line by line: an absent document is replaced by a new
  empty dictionary; \<^verbatim>\<open>dict(self.custom_fields)\<close> creates a second object with the same
  items; the item assignment edits that new object; the attribute is assigned the new
  reference; the attribute is flagged.
\<close>

definition set_custom_field :: "'v pystate \<Rightarrow> string \<Rightarrow> 'v \<Rightarrow> 'v pystate" where
  "set_custom_field s field_name val =
     (let s1 = (case custom_fields (self s) of
                  None \<Rightarrow> (let (e, s0) = new_dict [] s in setattr_custom_fields (Some e) s0)
                | Some _ \<Rightarrow> s);
          cur = (case custom_fields (self s1) of Some a \<Rightarrow> heap s1 ! a | None \<Rightarrow> []);
          (fields, s2) = new_dict cur s1;
          s3 = setitem fields field_name val s2;
          s4 = setattr_custom_fields (Some fields) s3
      in flag_modified ''custom_fields'' s4)"



section \<open>Enumerations and the labels they are persisted under\<close>

text \<open>
  \<^verbatim>\<open>users_sqla_model.py\<close>, lines 8 to 15 and 158 to 165. A Python enumeration member has a
  name and a value; iterating the class yields the members in definition order.
\<close>

datatype MilitaryBranch = ARMY | NAVY | AIR_FORCE | MARINES | SPACE_FORCE | COAST_GUARD

record 'e py_enum =
  members :: "'e list"
  member_name :: "'e \<Rightarrow> string"
  member_value :: "'e \<Rightarrow> string"

fun UserRole_name :: "UserRole \<Rightarrow> string" where
  "UserRole_name ADMIN = ''ADMIN''"
| "UserRole_name USER = ''USER''"

fun UserRole_value :: "UserRole \<Rightarrow> string" where
  "UserRole_value ADMIN = ''admin''"
| "UserRole_value USER = ''user''"

definition UserRole_class :: "UserRole py_enum" where
  "UserRole_class =
     \<lparr>members = [ADMIN, USER], member_name = UserRole_name, member_value = UserRole_value\<rparr>"

fun MilitaryBranch_name :: "MilitaryBranch \<Rightarrow> string" where
  "MilitaryBranch_name ARMY = ''ARMY''"
| "MilitaryBranch_name NAVY = ''NAVY''"
| "MilitaryBranch_name AIR_FORCE = ''AIR_FORCE''"
| "MilitaryBranch_name MARINES = ''MARINES''"
| "MilitaryBranch_name SPACE_FORCE = ''SPACE_FORCE''"
| "MilitaryBranch_name COAST_GUARD = ''COAST_GUARD''"

fun MilitaryBranch_value :: "MilitaryBranch \<Rightarrow> string" where
  "MilitaryBranch_value ARMY = ''army''"
| "MilitaryBranch_value NAVY = ''navy''"
| "MilitaryBranch_value AIR_FORCE = ''air_force''"
| "MilitaryBranch_value MARINES = ''marines''"
| "MilitaryBranch_value SPACE_FORCE = ''space_force''"
| "MilitaryBranch_value COAST_GUARD = ''coast_guard''"

definition MilitaryBranch_class :: "MilitaryBranch py_enum" where
  "MilitaryBranch_class =
     \<lparr>members = [ARMY, NAVY, AIR_FORCE, MARINES, SPACE_FORCE, COAST_GUARD],
      member_name = MilitaryBranch_name, member_value = MilitaryBranch_value\<rparr>"

text \<open>
  The column type \<^verbatim>\<open>Enum\<close> of the ORM (imported as \<^verbatim>\<open>SQLEnum\<close>), given an enumeration
  class. Its list of persisted labels is what \<^verbatim>\<open>values_callable\<close> returns for the class
  when that argument is given, and the member names otherwise; a member is written to the
  database as the label at its own position.
\<close>

record 'e sql_enum =
  enum_class :: "'e py_enum"
  values_callable :: "('e py_enum \<Rightarrow> string list) option"

definition SQLEnum :: "'e py_enum \<Rightarrow> ('e py_enum \<Rightarrow> string list) option \<Rightarrow> 'e sql_enum" where
  "SQLEnum cls vc = \<lparr>enum_class = cls, values_callable = vc\<rparr>"

definition enum_labels :: "'e sql_enum \<Rightarrow> string list" where
  "enum_labels t =
     (case values_callable t of
        Some f \<Rightarrow> f (enum_class t)
      | None \<Rightarrow> map (member_name (enum_class t)) (members (enum_class t)))"

definition db_value_for_elem :: "'e sql_enum \<Rightarrow> 'e \<Rightarrow> string option" where
  "db_value_for_elem t x = map_of (zip (members (enum_class t)) (enum_labels t)) x"

text \<open>The two enumeration columns: \<^verbatim>\<open>User.role\<close> (lines 84 to 88) and \<^verbatim>\<open>MilitaryUser.branch\<close> (line 185).\<close>

definition role_type :: "UserRole sql_enum" where
  "role_type = SQLEnum UserRole_class (Some (\<lambda>x. map (member_value x) (members x)))"

definition branch_type :: "MilitaryBranch sql_enum" where
  "branch_type = SQLEnum MilitaryBranch_class None"


section \<open>The declared schema\<close>

text \<open>
  \<^verbatim>\<open>base_sqla_model.py\<close> and \<^verbatim>\<open>users_sqla_model.py\<close> declare three tables. Each
  \<^verbatim>\<open>Column(...)\<close> becomes a record holding the arguments the source passes; an argument the
  source leaves out has the ORM's default (nullable, not unique, not a key, no default).
  A primary-key column is not nullable whether or not the declaration says so.
\<close>

datatype sqlval = VStr string | VBool bool | VUuid uuid | VTime int | VJson pyval

datatype coltype = String nat | Text | Boolean | DateTime | UUID | JSONB | Enum "string list"

datatype pydefault = Scalar sqlval | Callable_uuid4 | Callable_dict

datatype sqlfunc = FuncNow

record column =
  col_name :: string
  col_type :: coltype
  nullable :: bool
  unique :: bool
  primary_key :: bool
  index :: bool
  foreign_key :: "(string \<times> string) option"
  py_default :: "pydefault option"
  server_default :: "sqlfunc option"
  onupdate :: "sqlfunc option"

record table =
  tablename :: string
  columns :: "column list"

definition Column :: "string \<Rightarrow> coltype \<Rightarrow> column" where
  "Column n t =
     \<lparr>col_name = n, col_type = t, nullable = True, unique = False, primary_key = False,
      index = False, foreign_key = None, py_default = None, server_default = None,
      onupdate = None\<rparr>"

text \<open>\<^verbatim>\<open>BaseModel\<close> with \<^verbatim>\<open>TimeStampMixin\<close>: the three columns every concrete model inherits.\<close>

definition BaseModel_columns :: "column list" where
  "BaseModel_columns =
     [(Column ''id'' UUID)\<lparr>primary_key := True, py_default := Some Callable_uuid4,
                            nullable := False\<rparr>,
      (Column ''created_on'' DateTime)\<lparr>server_default := Some FuncNow, nullable := False\<rparr>,
      (Column ''updated_on'' DateTime)\<lparr>server_default := Some FuncNow,
                                       onupdate := Some FuncNow, nullable := False\<rparr>]"

definition UserTypeDefinition :: table where
  "UserTypeDefinition =
     \<lparr>tablename = ''user_type_definitions'',
      columns = BaseModel_columns @
        [(Column ''name'' (String 100))\<lparr>nullable := False, index := True\<rparr>,
         (Column ''description'' Text)\<lparr>nullable := True\<rparr>,
         (Column ''field_schema'' JSONB)\<lparr>nullable := False, py_default := Some Callable_dict\<rparr>,
         (Column ''is_active'' Boolean)\<lparr>py_default := Some (Scalar (VBool True)),
                                         nullable := False\<rparr>]\<rparr>"

definition User :: table where
  "User =
     \<lparr>tablename = ''users'',
      columns = BaseModel_columns @
        [(Column ''name'' (String 255))\<lparr>nullable := False\<rparr>,
         (Column ''email'' (String 255))\<lparr>unique := True, nullable := False, index := True\<rparr>,
         (Column ''role'' (Enum (enum_labels role_type)))
            \<lparr>nullable := False,
             py_default := map_option (\<lambda>l. Scalar (VStr l)) (db_value_for_elem role_type USER)\<rparr>,
         (Column ''is_active'' Boolean)\<lparr>py_default := Some (Scalar (VBool True)),
                                         nullable := False\<rparr>,
         Column ''user_type'' (String 50),
         (Column ''custom_type_definition_id'' UUID)
            \<lparr>foreign_key := Some (''user_type_definitions'', ''id''), nullable := True,
             index := True\<rparr>,
         (Column ''custom_fields'' JSONB)\<lparr>nullable := True, py_default := Some Callable_dict\<rparr>]\<rparr>"

text \<open>
  \<^verbatim>\<open>MilitaryUser(User)\<close> is mapped with joined-table inheritance: its table holds the
  columns its class body declares, and the inherited attributes (the timestamps, name,
  email and the rest) stay in the row of \<^verbatim>\<open>users\<close> with the same \<^verbatim>\<open>id\<close>.
\<close>

definition MilitaryUser :: table where
  "MilitaryUser =
     \<lparr>tablename = ''military_users'',
      columns =
        [(Column ''id'' UUID)\<lparr>foreign_key := Some (''users'', ''id''), primary_key := True\<rparr>,
         (Column ''rank'' (String 50))\<lparr>nullable := True\<rparr>,
         (Column ''unit'' (String 255))\<lparr>nullable := True\<rparr>,
         (Column ''mos'' (String 50))\<lparr>nullable := True\<rparr>,
         (Column ''branch'' (Enum (enum_labels branch_type)))\<lparr>nullable := True\<rparr>,
         (Column ''service_number'' (String 50))\<lparr>nullable := True, index := True\<rparr>,
         (Column ''clearance_level'' (String 50))\<lparr>nullable := True\<rparr>]\<rparr>"

definition metadata :: "table list" where
  "metadata = [UserTypeDefinition, User, MilitaryUser]"

text \<open>The mapper configuration (lines 129 to 132 and 189 to 191): the discriminator column and the identity of each mapped class.\<close>

datatype mapped_class = User_class | MilitaryUser_class

definition polymorphic_on :: string where
  "polymorphic_on = ''user_type''"

fun polymorphic_identity :: "mapped_class \<Rightarrow> string" where
  "polymorphic_identity User_class = ''user''"
| "polymorphic_identity MilitaryUser_class = ''military_user''"

definition polymorphic_map :: "(string \<times> mapped_class) list" where
  "polymorphic_map = map (\<lambda>c. (polymorphic_identity c, c)) [User_class, MilitaryUser_class]"



section \<open>Rows, statements and constraint checking\<close>

text \<open>
  The source declares the schema and leaves its enforcement to the ORM and the database.
  What follows is the relational reading of those declarations. A row maps column names to
  values, \<open>None\<close> standing for SQL \<^verbatim>\<open>NULL\<close>; a database maps table names to their rows. A
  statement is carried out on a copy of the database and kept only if the result satisfies
  every declared constraint: a non-nullable column holds no \<^verbatim>\<open>NULL\<close>, the non-\<^verbatim>\<open>NULL\<close>
  values of a unique or primary-key column are pairwise different, and every non-\<^verbatim>\<open>NULL\<close>
  value of a foreign-key column occurs in the column it references. No declaration of the
  source gives a foreign key an \<^verbatim>\<open>ondelete\<close> action, so a referenced row cannot be removed
  while a row refers to it. Column types and lengths are not checked: the model stores some
  rows the database would refuse (a string longer than its column, a label outside an
  enumeration), so what is proved of every row the model stores holds of every row the
  database stores.

  The environment of a statement holds what \<^verbatim>\<open>func.now()\<close> and \<^verbatim>\<open>uuid.uuid4()\<close> return
  while it runs. An \<^verbatim>\<open>INSERT\<close> fills a column the caller left out from the column's
  \<^verbatim>\<open>default\<close>, else from its \<^verbatim>\<open>server_default\<close>, else with \<^verbatim>\<open>NULL\<close>; an \<^verbatim>\<open>UPDATE\<close>
  fills a column the caller did not assign from its \<^verbatim>\<open>onupdate\<close>, when it has one.
\<close>

type_synonym row = "string \<rightharpoonup> sqlval"
type_synonym database = "string \<Rightarrow> row list"

definition empty_db :: database where
  "empty_db = (\<lambda>_. [])"

record env =
  now :: int
  uuid4 :: uuid

datatype error =
    NoSuchTable
  | NoSuchColumn
  | NotNullViolation
  | UniqueViolation
  | ForeignKeyViolation

definition not_null :: "column \<Rightarrow> bool" where
  "not_null c = (\<not> nullable c \<or> primary_key c)"

definition is_key :: "column \<Rightarrow> bool" where
  "is_key c = (unique c \<or> primary_key c)"

definition column_values :: "row list \<Rightarrow> string \<Rightarrow> sqlval list" where
  "column_values rows k = List.map_filter (\<lambda>r. r k) rows"

definition not_null_ok :: "database \<Rightarrow> table \<Rightarrow> bool" where
  "not_null_ok db t =
     list_all (\<lambda>c. not_null c \<longrightarrow> list_all (\<lambda>r. r (col_name c) \<noteq> None) (db (tablename t)))
       (columns t)"

definition unique_ok :: "database \<Rightarrow> table \<Rightarrow> bool" where
  "unique_ok db t =
     list_all (\<lambda>c. is_key c \<longrightarrow> distinct (column_values (db (tablename t)) (col_name c)))
       (columns t)"

definition references_ok :: "database \<Rightarrow> table \<Rightarrow> bool" where
  "references_ok db t =
     list_all (\<lambda>c. case foreign_key c of
                     None \<Rightarrow> True
                   | Some (t', k') \<Rightarrow>
                       list_all (\<lambda>v. v \<in> set (column_values (db t') k'))
                         (column_values (db (tablename t)) (col_name c)))
       (columns t)"

definition violation :: "table list \<Rightarrow> database \<Rightarrow> error option" where
  "violation schema db =
     (if \<not> list_all (not_null_ok db) schema then Some NotNullViolation
      else if \<not> list_all (unique_ok db) schema then Some UniqueViolation
      else if \<not> list_all (references_ok db) schema then Some ForeignKeyViolation
      else None)"

definition consistent :: "table list \<Rightarrow> database \<Rightarrow> bool" where
  "consistent schema db = (violation schema db = None)"

definition commit :: "table list \<Rightarrow> database \<Rightarrow> error + database" where
  "commit schema db = (case violation schema db of Some e \<Rightarrow> Inl e | None \<Rightarrow> Inr db)"

fun py_default_value :: "pydefault \<Rightarrow> env \<Rightarrow> sqlval" where
  "py_default_value (Scalar v) e = v"
| "py_default_value Callable_uuid4 e = VUuid (uuid4 e)"
| "py_default_value Callable_dict e = VJson (PyDict [])"

fun sql_func_value :: "sqlfunc \<Rightarrow> env \<Rightarrow> sqlval" where
  "sql_func_value FuncNow e = VTime (now e)"

definition insert_cell :: "column \<Rightarrow> env \<Rightarrow> (string \<times> sqlval) list \<Rightarrow> sqlval option" where
  "insert_cell c e vals =
     (case map_of vals (col_name c) of
        Some v \<Rightarrow> Some v
      | None \<Rightarrow>
          (case py_default c of
             Some d \<Rightarrow> Some (py_default_value d e)
           | None \<Rightarrow> map_option (\<lambda>f. sql_func_value f e) (server_default c)))"

definition insert_row :: "column list \<Rightarrow> env \<Rightarrow> (string \<times> sqlval) list \<Rightarrow> row" where
  "insert_row cols e vals =
     (\<lambda>k. case find (\<lambda>c. col_name c = k) cols of
             None \<Rightarrow> None
           | Some c \<Rightarrow> insert_cell c e vals)"

definition update_cell ::
  "column \<Rightarrow> env \<Rightarrow> (string \<times> sqlval option) list \<Rightarrow> sqlval option \<Rightarrow> sqlval option" where
  "update_cell c e sets old =
     (case map_of sets (col_name c) of
        Some v \<Rightarrow> v
      | None \<Rightarrow> (case onupdate c of Some f \<Rightarrow> Some (sql_func_value f e) | None \<Rightarrow> old))"

definition update_row ::
  "column list \<Rightarrow> env \<Rightarrow> (string \<times> sqlval option) list \<Rightarrow> row \<Rightarrow> row" where
  "update_row cols e sets r =
     (\<lambda>k. case find (\<lambda>c. col_name c = k) cols of
             None \<Rightarrow> r k
           | Some c \<Rightarrow> update_cell c e sets (r k))"

definition known_columns :: "table \<Rightarrow> string list \<Rightarrow> bool" where
  "known_columns t ks = list_all (\<lambda>k. k \<in> set (map col_name (columns t))) ks"

text \<open>
  \<open>Insert t vals\<close> adds one row to table \<open>t\<close>; \<open>Update t (k, v) sets\<close> assigns \<open>sets\<close> in
  every row of \<open>t\<close> whose column \<open>k\<close> holds \<open>v\<close> (\<open>None\<close> in \<open>sets\<close> assigns \<^verbatim>\<open>NULL\<close>);
  \<open>Delete t (k, v)\<close> removes those rows.
\<close>

datatype stmt =
    Insert string "(string \<times> sqlval) list"
  | Update string "string \<times> sqlval" "(string \<times> sqlval option) list"
  | Delete string "string \<times> sqlval"

fun execute :: "table list \<Rightarrow> env \<Rightarrow> stmt \<Rightarrow> database \<Rightarrow> error + database" where
  "execute schema e (Insert tn vals) db =
     (case find (\<lambda>t. tablename t = tn) schema of
        None \<Rightarrow> Inl NoSuchTable
      | Some t \<Rightarrow>
          if \<not> known_columns t (map fst vals) then Inl NoSuchColumn
          else commit schema (db(tn := db tn @ [insert_row (columns t) e vals])))"
| "execute schema e (Update tn (k, v) sets) db =
     (case find (\<lambda>t. tablename t = tn) schema of
        None \<Rightarrow> Inl NoSuchTable
      | Some t \<Rightarrow>
          if \<not> known_columns t (k # map fst sets) then Inl NoSuchColumn
          else commit schema
                 (db(tn := map (\<lambda>r. if r k = Some v then update_row (columns t) e sets r else r)
                             (db tn))))"
| "execute schema e (Delete tn (k, v)) db =
     (case find (\<lambda>t. tablename t = tn) schema of
        None \<Rightarrow> Inl NoSuchTable
      | Some t \<Rightarrow>
          if \<not> known_columns t [k] then Inl NoSuchColumn
          else commit schema (db(tn := filter (\<lambda>r. r k \<noteq> Some v) (db tn))))"

text \<open>A history of statements, each with its environment; a rejected statement changes nothing.\<close>

fun run :: "table list \<Rightarrow> (env \<times> stmt) list \<Rightarrow> database \<Rightarrow> database" where
  "run schema [] db = db"
| "run schema ((e, s) # ss) db =
     (case execute schema e s db of
        Inl _ \<Rightarrow> run schema ss db
      | Inr db' \<Rightarrow> run schema ss db')"





text \<open>
  Whether a statement assigns an audit timestamp itself, and whether a row's two timestamps
  are both set with \<^verbatim>\<open>updated_on\<close> not before \<^verbatim>\<open>created_on\<close>.
\<close>

fun supplies_timestamps :: "stmt \<Rightarrow> bool" where
  "supplies_timestamps (Insert tn vals) =
     (''created_on'' \<in> set (map fst vals) \<or> ''updated_on'' \<in> set (map fst vals))"
| "supplies_timestamps (Update tn w sets) =
     (''created_on'' \<in> set (map fst sets) \<or> ''updated_on'' \<in> set (map fst sets))"
| "supplies_timestamps (Delete tn w) = False"

fun stamps_within :: "int \<Rightarrow> sqlval option \<Rightarrow> sqlval option \<Rightarrow> bool" where
  "stamps_within T (Some (VTime c)) (Some (VTime u)) = (c \<le> u \<and> u \<le> T)"
| "stamps_within T _ _ = False"

fun stamps_ordered :: "sqlval option \<Rightarrow> sqlval option \<Rightarrow> bool" where
  "stamps_ordered (Some (VTime c)) (Some (VTime u)) = (c \<le> u)"
| "stamps_ordered _ _ = False"


section \<open>The HTTP route\<close>

text \<open>
  \<^verbatim>\<open>users_routes.py\<close>. \<^verbatim>\<open>APIRouter(prefix, tags, responses)\<close> starts with no routes;
  \<^verbatim>\<open>router.post(path, response_model, status_code)\<close> registers the decorated function under
  the prefix followed by the path, for the method \<^verbatim>\<open>POST\<close>, with the router's declared
  responses. The body of \<^verbatim>\<open>create_user\<close> is its docstring, so the function returns
  \<^verbatim>\<open>None\<close>.
\<close>

datatype pydantic_model = UserSchema_model | MilitaryUserSchema_model

record route =
  path :: string
  methods :: "string list"
  status_code :: nat
  response_model :: "pydantic_model option"
  responses :: "(nat \<times> string) list"
  endpoint :: "UserSchema \<Rightarrow> pyval"

record api_router =
  prefix :: string
  tags :: "string list"
  router_responses :: "(nat \<times> string) list"
  routes :: "route list"

definition APIRouter :: "string \<Rightarrow> string list \<Rightarrow> (nat \<times> string) list \<Rightarrow> api_router" where
  "APIRouter p ts rs = \<lparr>prefix = p, tags = ts, router_responses = rs, routes = []\<rparr>"

definition post ::
  "api_router \<Rightarrow> string \<Rightarrow> pydantic_model \<Rightarrow> nat \<Rightarrow> (UserSchema \<Rightarrow> pyval) \<Rightarrow> api_router" where
  "post r p model code f =
     r\<lparr>routes := routes r @
         [\<lparr>path = prefix r @ p, methods = [''POST''], status_code = code,
           response_model = Some model, responses = router_responses r, endpoint = f\<rparr>]\<rparr>"

definition HTTP_201_CREATED :: nat where
  "HTTP_201_CREATED = 201"

definition create_user :: "UserSchema \<Rightarrow> pyval" where
  "create_user user = PyNone"

definition router :: api_router where
  "router =
     post (APIRouter ''/users'' [''users''] [(404, ''User Not Found'')])
       ''/'' UserSchema_model HTTP_201_CREATED create_user"


section \<open>Example states\<close>

text \<open>An instance whose document holds two fields, and one whose document is \<^verbatim>\<open>None\<close>.\<close>

definition example_user :: user where
  "example_user =
     \<lparr>id = None, created_on = None, updated_on = None, name = Some ''Ann'',
      email = Some ''ann@example.org'', role = Some USER, is_active = Some True,
      user_type = Some ''user'', custom_type_definition_id = None, custom_fields = Some 0\<rparr>"

definition example_state :: "pyval pystate" where
  "example_state =
     \<lparr>heap = [[(''ship_assignment'', PyStr ''USS Enterprise''), (''pager'', PyInt 5)]],
      self = example_user, modified = {}\<rparr>"

definition blank_state :: "pyval pystate" where
  "blank_state = \<lparr>heap = [], self = example_user\<lparr>custom_fields := None\<rparr>, modified = {}\<rparr>"

text \<open>An instance whose \<^verbatim>\<open>custom_fields\<close> is the JSON array \<^verbatim>\<open>[1, 2]\<close>.\<close>

definition array_state :: "pyval pyobject instance_state" where
  "array_state =
     \<lparr>heap = [JsonArray [PyInt 1, PyInt 2]], self = example_user, modified = {}\<rparr>"

text \<open>
  Statement histories: two users; a military user with its base row; a user whose
  timestamps the caller supplies; a type definition whose name is the empty string; a user
  created and later renamed; a user created in a transaction that started after the one
  that later renames it.
\<close>

definition two_users :: "(env \<times> stmt) list" where
  "two_users =
     [(\<lparr>now = 10, uuid4 = 1\<rparr>,
       Insert ''users'' [(''name'', VStr ''Ann''), (''email'', VStr ''ann@example.org'')]),
      (\<lparr>now = 20, uuid4 = 2\<rparr>,
       Insert ''users'' [(''name'', VStr ''Bob''), (''email'', VStr ''bob@example.org'')])]"

definition military_pair :: "(env \<times> stmt) list" where
  "military_pair =
     [(\<lparr>now = 10, uuid4 = 7\<rparr>,
       Insert ''users'' [(''name'', VStr ''Cy''), (''email'', VStr ''cy@example.org''),
                         (''user_type'', VStr ''military_user'')]),
      (\<lparr>now = 10, uuid4 = 8\<rparr>,
       Insert ''military_users'' [(''id'', VUuid 7), (''rank'', VStr ''CPT'')])]"

definition backdated :: "(env \<times> stmt) list" where
  "backdated =
     [(\<lparr>now = 10, uuid4 = 1\<rparr>,
       Insert ''users'' [(''name'', VStr ''Ann''), (''email'', VStr ''ann@example.org''),
                         (''created_on'', VTime 5), (''updated_on'', VTime 3)])]"

definition unnamed_type :: "(env \<times> stmt) list" where
  "unnamed_type =
     [(\<lparr>now = 10, uuid4 = 1\<rparr>, Insert ''user_type_definitions'' [(''name'', VStr [])])]"

definition renamed :: "(env \<times> stmt) list" where
  "renamed =
     [(\<lparr>now = 10, uuid4 = 1\<rparr>,
       Insert ''users'' [(''name'', VStr ''Ann''), (''email'', VStr ''ann@example.org'')]),
      (\<lparr>now = 20, uuid4 = 2\<rparr>,
       Update ''users'' (''id'', VUuid 1) [(''name'', Some (VStr ''Anna''))])]"

definition overlapping :: "(env \<times> stmt) list" where
  "overlapping =
     [(\<lparr>now = 11, uuid4 = 1\<rparr>,
       Insert ''users'' [(''name'', VStr ''Ann''), (''email'', VStr ''ann@example.org'')]),
      (\<lparr>now = 10, uuid4 = 2\<rparr>,
       Update ''users'' (''id'', VUuid 1) [(''name'', Some (VStr ''Anna''))])]"


section \<open>Dictionary facts\<close>

lemma map_of_dict_setitem: "map_of (dict_setitem d k v) = (map_of d)(k \<mapsto> v)"
  by (induction d) (auto simp: fun_eq_iff)

lemma dict_setitem_twice: "dict_setitem (dict_setitem d k v) k v = dict_setitem d k v"
  by (induction d) auto

lemma dict_get_setitem_same: "dict_get (dict_setitem d k v) k dflt = v"
  by (simp add: dict_get_def map_of_dict_setitem)

lemma dict_get_setitem_other:
  "k' \<noteq> k \<Longrightarrow> dict_get (dict_setitem d k v) k' dflt = dict_get d k' dflt"
  by (simp add: dict_get_def map_of_dict_setitem)

section \<open>Reading and writing custom fields\<close>

lemma set_custom_field_unfold:
  "set_custom_field s k v =
     (case custom_fields (self s) of
        None \<Rightarrow> \<lparr>heap = heap s @ [[], [(k, v)]],
                 self = (self s)\<lparr>custom_fields := Some (Suc (length (heap s)))\<rparr>,
                 modified = insert ''custom_fields'' (modified s)\<rparr>
      | Some a \<Rightarrow> \<lparr>heap = heap s @ [dict_setitem (heap s ! a) k v],
                 self = (self s)\<lparr>custom_fields := Some (length (heap s))\<rparr>,
                 modified = insert ''custom_fields'' (modified s)\<rparr>)"
  by (simp add: set_custom_field_def new_dict_def setattr_custom_fields_def setitem_def
      flag_modified_def Let_def nth_append split: option.splits)



text \<open>
  Claim C2. Applying \<^verbatim>\<open>set_custom_field\<close> a second time with the same field name and value
  leaves the instance with the same document (same keys, same order, same values) and the
  same set of modified attributes as applying it once.
\<close>

theorem set_custom_field_idempotent:
  assumes "valid s"
  shows "document (set_custom_field (set_custom_field s field_name val) field_name val)
           = document (set_custom_field s field_name val)
       \<and> modified (set_custom_field (set_custom_field s field_name val) field_name val)
           = modified (set_custom_field s field_name val)"
  by (cases "custom_fields (self s)")
     (auto simp: set_custom_field_unfold document_def nth_append dict_setitem_twice)

theorem set_custom_field_idempotent_witness:
  "valid blank_state
   \<and> document (set_custom_field (set_custom_field blank_state ''unit'' (PyStr ''B'')) ''unit'' (PyStr ''B''))
       = Some [(''unit'', PyStr ''B'')]"
proof -
  have v: "valid blank_state"
    by (simp add: valid_def blank_state_def)
  have "document (set_custom_field blank_state ''unit'' (PyStr ''B'')) = Some [(''unit'', PyStr ''B'')]"
    by (simp add: set_custom_field_unfold document_def blank_state_def)
  with set_custom_field_idempotent [OF v, of "''unit''" "PyStr ''B''"] v
  show ?thesis by simp
qed

text \<open>
  Claim C10, as the code has it. \<^verbatim>\<open>get_custom_field\<close> leaves the state as it was in
  every case. When \<^verbatim>\<open>custom_fields\<close> is \<^verbatim>\<open>None\<close> it returns the default; when it is a
  dictionary it returns the default if the key is missing and the stored value if the key
  is present. When \<^verbatim>\<open>custom_fields\<close> is any other JSON value the call raises
  \<^verbatim>\<open>AttributeError\<close>, and that is the only case in which it raises.
\<close>

theorem get_custom_field_on_documents:
  "snd (get_custom_field s field_name dflt) = s
   \<and> (attribute_value s = None \<longrightarrow> fst (get_custom_field s field_name dflt) = Inr dflt)
   \<and> (\<forall>d. attribute_value s = Some (Dict d) \<longrightarrow>
         (map_of d field_name = None \<longrightarrow> fst (get_custom_field s field_name dflt) = Inr dflt)
       \<and> (\<forall>v. map_of d field_name = Some v \<longrightarrow>
             fst (get_custom_field s field_name dflt) = Inr v))
   \<and> (\<forall>ob. attribute_value s = Some ob \<and> \<not> is_dict ob \<longrightarrow>
         fst (get_custom_field s field_name dflt) = Inl AttributeError)"
proof -
  have 1: "snd (get_custom_field s field_name dflt) = s"
    by (simp add: get_custom_field_def split: option.splits pyobject.splits)
  have 2: "attribute_value s = None \<longrightarrow> fst (get_custom_field s field_name dflt) = Inr dflt"
    by (simp add: get_custom_field_def attribute_value_def split: option.splits)
  have 3: "\<forall>d. attribute_value s = Some (Dict d) \<longrightarrow>
         (map_of d field_name = None \<longrightarrow> fst (get_custom_field s field_name dflt) = Inr dflt)
       \<and> (\<forall>v. map_of d field_name = Some v \<longrightarrow>
             fst (get_custom_field s field_name dflt) = Inr v)"
    by (auto simp: get_custom_field_def attribute_value_def dict_get_def split: option.splits)
  have 4: "\<forall>ob. attribute_value s = Some ob \<and> \<not> is_dict ob \<longrightarrow>
         fst (get_custom_field s field_name dflt) = Inl AttributeError"
  proof (intro allI impI, elim conjE)
    fix ob assume "attribute_value s = Some ob" and "\<not> is_dict ob"
    then show "fst (get_custom_field s field_name dflt) = Inl AttributeError"
      by (cases ob) (auto simp: get_custom_field_def attribute_value_def)
  qed
  show ?thesis by (intro conjI 1 2 3 4)
qed

theorem get_custom_field_on_documents_witness:
  "attribute_value (as_objects blank_state) = None
   \<and> fst (get_custom_field (as_objects blank_state) ''pager'' PyNone) = Inr PyNone
   \<and> attribute_value (as_objects example_state)
       = Some (Dict [(''ship_assignment'', PyStr ''USS Enterprise''), (''pager'', PyInt 5)])
   \<and> fst (get_custom_field (as_objects example_state) ''pager'' PyNone) = Inr (PyInt 5)
   \<and> fst (get_custom_field (as_objects example_state) ''rank'' (PyStr ''none''))
       = Inr (PyStr ''none'')
   \<and> attribute_value array_state = Some (JsonArray [PyInt 1, PyInt 2])
   \<and> fst (get_custom_field array_state ''pager'' PyNone) = Inl AttributeError
   \<and> snd (get_custom_field array_state ''pager'' PyNone) = array_state"
proof -
  have b: "attribute_value (as_objects blank_state) = None"
    by (simp add: attribute_value_def as_objects_def blank_state_def)
  have e: "attribute_value (as_objects example_state)
      = Some (Dict [(''ship_assignment'', PyStr ''USS Enterprise''), (''pager'', PyInt 5)])"
    by (simp add: attribute_value_def as_objects_def example_state_def example_user_def)
  have a: "attribute_value array_state = Some (JsonArray [PyInt 1, PyInt 2])"
    by (simp add: attribute_value_def array_state_def example_user_def)
  from get_custom_field_on_documents [of "as_objects blank_state" "''pager''" PyNone] b
  have 1: "fst (get_custom_field (as_objects blank_state) ''pager'' PyNone) = Inr PyNone"
    by blast
  from get_custom_field_on_documents [of "as_objects example_state" "''pager''" PyNone] e
  have 2: "fst (get_custom_field (as_objects example_state) ''pager'' PyNone) = Inr (PyInt 5)"
    by simp
  from get_custom_field_on_documents [of "as_objects example_state" "''rank''" "PyStr ''none''"] e
  have 3: "fst (get_custom_field (as_objects example_state) ''rank'' (PyStr ''none''))
      = Inr (PyStr ''none'')"
    by simp
  from get_custom_field_on_documents [of array_state "''pager''" PyNone] a
  have 4: "fst (get_custom_field array_state ''pager'' PyNone) = Inl AttributeError"
    by simp
  from get_custom_field_on_documents [of array_state "''pager''" PyNone]
  have 5: "snd (get_custom_field array_state ''pager'' PyNone) = array_state"
    by (rule conjunct1)
  show ?thesis by (intro conjI b 1 e 2 3 a 4 5)
qed

text \<open>
  The claim as written fails: with the JSON array \<^verbatim>\<open>[1, 2]\<close> in \<^verbatim>\<open>custom_fields\<close> the call
  raises instead of returning the default.
\<close>

theorem get_custom_field_array_counterexample:
  "fst (get_custom_field array_state ''pager'' PyNone) = Inl AttributeError
   \<and> fst (get_custom_field array_state ''pager'' PyNone) \<noteq> Inr PyNone"
  by (simp add: get_custom_field_def array_state_def example_user_def)


section \<open>Persisted enumeration labels\<close>

text \<open>
  Claim C3. The role column is given \<^verbatim>\<open>values_callable\<close> and stores each member under its
  value, \<^verbatim>\<open>admin\<close> and \<^verbatim>\<open>user\<close>. The branch column is declared as
  \<^verbatim>\<open>SQLEnum(MilitaryBranch)\<close> with no \<^verbatim>\<open>values_callable\<close>, so it stores each member under
  its name: \<^verbatim>\<open>ARMY\<close>, \<^verbatim>\<open>NAVY\<close> and so on, not the lowercase values \<^verbatim>\<open>army\<close>,
  \<^verbatim>\<open>navy\<close> that the claim lists.
\<close>

theorem branch_stored_under_member_name:
  "map (db_value_for_elem role_type) (members UserRole_class) = [Some ''admin'', Some ''user'']
   \<and> map (db_value_for_elem branch_type) (members MilitaryBranch_class)
       = [Some ''ARMY'', Some ''NAVY'', Some ''AIR_FORCE'', Some ''MARINES'',
          Some ''SPACE_FORCE'', Some ''COAST_GUARD'']
   \<and> map (member_value MilitaryBranch_class) (members MilitaryBranch_class)
       = [''army'', ''navy'', ''air_force'', ''marines'', ''space_force'', ''coast_guard'']
   \<and> db_value_for_elem branch_type ARMY \<noteq> Some (member_value MilitaryBranch_class ARMY)"
  by (simp add: db_value_for_elem_def enum_labels_def role_type_def branch_type_def SQLEnum_def
       UserRole_class_def MilitaryBranch_class_def)


section \<open>The registered route\<close>

text \<open>
  Claim C9. The users router holds exactly one route: \<^verbatim>\<open>POST /users/\<close>, with status code
  201, the user schema as response model and a declared response 404 described as
  \<^verbatim>\<open>User Not Found\<close>; its handler returns \<^verbatim>\<open>None\<close> for every request body.
\<close>

theorem users_router_single_post_route:
  "\<exists>r. routes router = [r] \<and> path r = ''/users/'' \<and> methods r = [''POST'']
     \<and> status_code r = 201 \<and> response_model r = Some UserSchema_model
     \<and> responses r = [(404, ''User Not Found'')]
     \<and> (\<forall>u. endpoint r u = PyNone)"
  by (simp add: router_def post_def APIRouter_def HTTP_201_CREATED_def create_user_def)


section \<open>Consistency of every reachable database\<close>

lemma consistent_empty_db: "consistent schema empty_db"
  by (auto simp: consistent_def violation_def not_null_ok_def unique_ok_def references_ok_def
      empty_db_def column_values_def List.map_filter_def list_all_iff split: option.splits)

lemma commit_consistent: "commit schema db = Inr db' \<Longrightarrow> consistent schema db'"
  by (auto simp: commit_def consistent_def split: option.splits)

lemma execute_consistent: "execute schema e s db = Inr db' \<Longrightarrow> consistent schema db'"
  by (induction schema e s db rule: execute.induct)
     (auto dest: commit_consistent split: option.splits if_splits)

lemma run_consistent: "consistent schema db \<Longrightarrow> consistent schema (run schema ss db)"
proof (induction ss arbitrary: db)
  case Nil
  then show ?case by simp
next
  case (Cons a ss)
  obtain e s where a: "a = (e, s)" by (cases a)
  show ?case
  proof (cases "execute schema e s db")
    case (Inl err)
    with Cons a show ?thesis by simp
  next
    case (Inr db')
    with Cons.IH [OF execute_consistent [OF Inr]] a show ?thesis by simp
  qed
qed

lemma reachable_consistent: "consistent schema (run schema ss empty_db)"
  by (rule run_consistent [OF consistent_empty_db])

lemma consistent_table:
  "consistent schema db \<Longrightarrow> t \<in> set schema \<Longrightarrow> not_null_ok db t \<and> unique_ok db t \<and> references_ok db t"
  by (auto simp: consistent_def violation_def list_all_iff split: if_splits)

lemma not_null_okD:
  "not_null_ok db t \<Longrightarrow> c \<in> set (columns t) \<Longrightarrow> not_null c \<Longrightarrow> r \<in> set (db (tablename t))
   \<Longrightarrow> r (col_name c) \<noteq> None"
  by (auto simp: not_null_ok_def list_all_iff)

lemma unique_okD:
  "unique_ok db t \<Longrightarrow> c \<in> set (columns t) \<Longrightarrow> is_key c
   \<Longrightarrow> distinct (column_values (db (tablename t)) (col_name c))"
  by (auto simp: unique_ok_def list_all_iff)

lemma column_values_Nil [simp]: "column_values [] k = []"
  by (simp add: column_values_def)

lemma column_values_Cons [simp]:
  "column_values (r # rows) k = (case r k of None \<Rightarrow> column_values rows k | Some v \<Rightarrow> v # column_values rows k)"
  by (simp add: column_values_def split: option.splits)

lemma set_column_values: "set (column_values rows k) = {v. \<exists>r \<in> set rows. r k = Some v}"
  by (induction rows) (auto split: option.splits)

lemma column_values_append [simp]:
  "column_values (xs @ ys) k = column_values xs k @ column_values ys k"
  by (induction xs) (auto split: option.splits)

lemma column_values_all_some:
  "\<forall>r \<in> set rows. r k \<noteq> None \<Longrightarrow> map (\<lambda>r. r k) rows = map Some (column_values rows k)"
  by (induction rows) (auto split: option.splits)

lemma distinct_cells:
  "\<forall>r \<in> set rows. r k \<noteq> None \<Longrightarrow> distinct (column_values rows k) \<Longrightarrow> distinct (map (\<lambda>r. r k) rows)"
  by (simp add: column_values_all_some distinct_map)

lemma length_filter_cell:
  "length (filter (\<lambda>r. r k = Some v) rows) = count_list (column_values rows k) v"
  by (induction rows) (auto split: option.splits)

lemma distinct_count_list_1: "distinct xs \<Longrightarrow> x \<in> set xs \<Longrightarrow> count_list xs x = 1"
  by (induction xs) auto

lemma column_values_filter_distinct:
  "distinct (column_values rows k) \<Longrightarrow> distinct (column_values (filter P rows) k)"
  by (induction rows) (auto simp: set_column_values split: option.splits)

lemma references_okD:
  "references_ok db t \<Longrightarrow> c \<in> set (columns t) \<Longrightarrow> foreign_key c = Some (t', k')
   \<Longrightarrow> r \<in> set (db (tablename t)) \<Longrightarrow> r (col_name c) = Some v
   \<Longrightarrow> \<exists>r' \<in> set (db t'). r' k' = Some v"
  by (fastforce simp: references_ok_def list_all_iff set_column_values)

lemma consistent_not_null:
  "consistent schema db \<Longrightarrow> t \<in> set schema \<Longrightarrow> \<exists>c \<in> set (columns t). col_name c = k \<and> not_null c
   \<Longrightarrow> r \<in> set (db (tablename t)) \<Longrightarrow> r k \<noteq> None"
  using consistent_table not_null_okD by blast

lemma consistent_unique:
  "consistent schema db \<Longrightarrow> t \<in> set schema \<Longrightarrow> \<exists>c \<in> set (columns t). col_name c = k \<and> is_key c
   \<Longrightarrow> distinct (column_values (db (tablename t)) k)"
  using consistent_table unique_okD by blast

lemma consistent_references:
  "consistent schema db \<Longrightarrow> t \<in> set schema
   \<Longrightarrow> \<exists>c \<in> set (columns t). col_name c = k \<and> foreign_key c = Some (t', k')
   \<Longrightarrow> r \<in> set (db (tablename t)) \<Longrightarrow> r k = Some v
   \<Longrightarrow> \<exists>r' \<in> set (db t'). r' k' = Some v"
  using consistent_table references_okD by blast

lemmas table_defs = User_def MilitaryUser_def UserTypeDefinition_def BaseModel_columns_def Column_def

lemma tablenames [simp]:
  "tablename User = ''users''" "tablename MilitaryUser = ''military_users''"
  "tablename UserTypeDefinition = ''user_type_definitions''"
  by (simp_all add: table_defs)

lemma in_metadata [simp]:
  "User \<in> set metadata" "MilitaryUser \<in> set metadata" "UserTypeDefinition \<in> set metadata"
  by (simp_all add: metadata_def)

lemma find_table [simp]:
  "find (\<lambda>t. tablename t = ''users'') metadata = Some User"
  "find (\<lambda>t. tablename t = ''military_users'') metadata = Some MilitaryUser"
  "find (\<lambda>t. tablename t = ''user_type_definitions'') metadata = Some UserTypeDefinition"
  by (simp_all add: metadata_def)

lemma email_column:
  "\<exists>c \<in> set (columns User). col_name c = ''email'' \<and> not_null c"
  "\<exists>c \<in> set (columns User). col_name c = ''email'' \<and> is_key c"
  by (simp_all add: table_defs not_null_def is_key_def)

lemma insert_row_email: "insert_row (columns User) e vals ''email'' = map_of vals ''email''"
  by (simp add: insert_row_def insert_cell_def table_defs split: option.splits)

lemma email_only_in_users:
  "list_all (\<lambda>t. ''email'' \<in> set (map col_name (columns t)) \<longrightarrow> tablename t = ''users'') metadata"
  by (simp add: metadata_def table_defs)


lemma id_columns:
  "\<exists>c \<in> set (columns User). col_name c = ''id'' \<and> not_null c"
  "\<exists>c \<in> set (columns User). col_name c = ''id'' \<and> is_key c"
  "\<exists>c \<in> set (columns MilitaryUser). col_name c = ''id'' \<and> not_null c"
  "\<exists>c \<in> set (columns MilitaryUser). col_name c = ''id'' \<and> is_key c"
  "\<exists>c \<in> set (columns MilitaryUser). col_name c = ''id'' \<and> foreign_key c = Some (''users'', ''id'')"
  "\<exists>c \<in> set (columns UserTypeDefinition). col_name c = ''id'' \<and> not_null c"
  by (simp_all add: table_defs not_null_def is_key_def)

lemma military_row_base:
  assumes c: "consistent metadata db" and m: "m \<in> set (db ''military_users'')"
  shows "\<exists>v. m ''id'' = Some v \<and> length (filter (\<lambda>u. u ''id'' = Some v) (db ''users'')) = 1"
proof -
  from consistent_not_null [OF c in_metadata(2) id_columns(3)] m
  obtain v where v: "m ''id'' = Some v" by auto
  from consistent_references [OF c in_metadata(2) id_columns(5)] m v
  have "v \<in> set (column_values (db ''users'') ''id'')"
    by (auto simp: set_column_values)
  moreover have "distinct (column_values (db ''users'') ''id'')"
    using consistent_unique [OF c in_metadata(1) id_columns(2)] by simp
  ultimately have "length (filter (\<lambda>u. u ''id'' = Some v) (db ''users'')) = 1"
    by (simp add: length_filter_cell distinct_count_list_1)
  with v show ?thesis by blast
qed


lemma name_column:
  "\<exists>c \<in> set (columns UserTypeDefinition). col_name c = ''name'' \<and> not_null c"
  by (simp add: table_defs not_null_def)

lemma insert_row_name:
  "insert_row (columns UserTypeDefinition) e vals ''name'' = map_of vals ''name''"
  by (simp add: insert_row_def insert_cell_def table_defs split: option.splits)

lemma violation_not_null:
  "t \<in> set schema \<Longrightarrow> \<not> not_null_ok db t \<Longrightarrow> violation schema db = Some NotNullViolation"
  by (auto simp: violation_def list_all_iff)


lemma run_append: "run schema (xs @ ys) db = run schema ys (run schema xs db)"
  by (induction xs arbitrary: db) (auto split: sum.splits)

lemma not_null_ok_filter: "not_null_ok db t \<Longrightarrow> not_null_ok (db(tn := filter P (db tn))) t"
  by (auto simp: not_null_ok_def list_all_iff)

lemma unique_ok_filter: "unique_ok db t \<Longrightarrow> unique_ok (db(tn := filter P (db tn))) t"
  by (auto simp: unique_ok_def list_all_iff column_values_filter_distinct)



lemma known_id [simp]:
  "known_columns User [''id'']" "known_columns MilitaryUser [''id'']"
  by (simp_all add: known_columns_def table_defs)





lemma delete_base_blocked:
  assumes c: "consistent metadata db"
    and m: "m \<in> set (db ''military_users'')" "m ''id'' = Some v"
  shows "execute metadata e (Delete ''users'' (''id'', v)) db = Inl ForeignKeyViolation"
proof -
  let ?db = "db(''users'' := filter (\<lambda>r. r ''id'' \<noteq> Some v) (db ''users''))"
  have "\<forall>t \<in> set metadata. not_null_ok ?db t"
    using consistent_table [OF c] not_null_ok_filter by blast
  moreover have "\<forall>t \<in> set metadata. unique_ok ?db t"
    using consistent_table [OF c] unique_ok_filter by blast
  moreover have "\<not> references_ok ?db MilitaryUser"
  proof
    assume "references_ok ?db MilitaryUser"
    from references_okD [OF this] id_columns(5) m
    have "\<exists>r' \<in> set (?db ''users''). r' ''id'' = Some v" by fastforce
    then show False by simp
  qed
  then have "\<not> (\<forall>t \<in> set metadata. references_ok ?db t)"
    using in_metadata(2) by blast
  ultimately have "violation metadata ?db = Some ForeignKeyViolation"
    by (simp add: violation_def list_all_iff)
  then show ?thesis by (simp add: commit_def)
qed




section \<open>Audit timestamps along a history\<close>

lemma execute_Insert_result:
  "execute schema e (Insert tn vals) db = Inr db'
   \<Longrightarrow> \<exists>t. find (\<lambda>t. tablename t = tn) schema = Some t
          \<and> db' = db(tn := db tn @ [insert_row (columns t) e vals])"
  by (auto simp: commit_def split: option.splits if_splits)

lemma execute_Update_result:
  "execute schema e (Update tn (k, v) sets) db = Inr db'
   \<Longrightarrow> \<exists>t. find (\<lambda>t. tablename t = tn) schema = Some t
          \<and> db' = db(tn := map (\<lambda>r. if r k = Some v then update_row (columns t) e sets r else r)
                              (db tn))"
  by (auto simp: commit_def split: option.splits if_splits)

lemma execute_Delete_result:
  "execute schema e (Delete tn (k, v)) db = Inr db'
   \<Longrightarrow> db' = db(tn := filter (\<lambda>r. r k \<noteq> Some v) (db tn))"
  by (auto simp: commit_def split: option.splits if_splits)

lemma stamped_table:
  "tn = ''users'' \<or> tn = ''user_type_definitions'' \<Longrightarrow> find (\<lambda>t. tablename t = tn) metadata = Some t
   \<Longrightarrow> t = User \<or> t = UserTypeDefinition"
  by auto

lemma insert_row_stamps:
  assumes "t = User \<or> t = UserTypeDefinition"
  shows "insert_row (columns t) e vals ''created_on''
           = (case map_of vals ''created_on'' of Some v \<Rightarrow> Some v | None \<Rightarrow> Some (VTime (now e)))"
    and "insert_row (columns t) e vals ''updated_on''
           = (case map_of vals ''updated_on'' of Some v \<Rightarrow> Some v | None \<Rightarrow> Some (VTime (now e)))"
    and "insert_row (columns t) e vals ''id''
           = (case map_of vals ''id'' of Some v \<Rightarrow> Some v | None \<Rightarrow> Some (VUuid (uuid4 e)))"
  using assms
  by (auto simp: insert_row_def insert_cell_def table_defs split: option.splits)

lemma update_row_stamps:
  assumes "t = User \<or> t = UserTypeDefinition"
  shows "update_row (columns t) e sets r ''created_on''
           = (case map_of sets ''created_on'' of Some v \<Rightarrow> v | None \<Rightarrow> r ''created_on'')"
    and "update_row (columns t) e sets r ''updated_on''
           = (case map_of sets ''updated_on'' of Some v \<Rightarrow> v | None \<Rightarrow> Some (VTime (now e)))"
  using assms
  by (auto simp: update_row_def update_cell_def table_defs split: option.splits)

lemma stamps_within_mono: "stamps_within T a b \<Longrightarrow> T \<le> T' \<Longrightarrow> stamps_within T' a b"
  by (induction T a b rule: stamps_within.induct) auto

lemma stamps_within_ordered: "stamps_within T a b \<Longrightarrow> stamps_ordered a b"
  by (induction T a b rule: stamps_within.induct) auto

lemma stamps_within_touch:
  "stamps_within T a b \<Longrightarrow> T \<le> T' \<Longrightarrow> stamps_within T' a (Some (VTime T'))"
  by (induction T a b rule: stamps_within.induct) auto

lemma not_supplied:
  "k \<notin> set (map fst kvs) \<Longrightarrow> map_of kvs k = None"
  by (simp add: map_of_eq_None_iff)

lemma execute_stamps:
  assumes tn: "tn = ''users'' \<or> tn = ''user_type_definitions''"
    and inv: "\<forall>r \<in> set (db tn). stamps_within T (r ''created_on'') (r ''updated_on'')"
    and T: "T \<le> now e"
    and ns: "\<not> supplies_timestamps s"
    and ex: "execute metadata e s db = Inr db'"
  shows "\<forall>r \<in> set (db' tn). stamps_within (now e) (r ''created_on'') (r ''updated_on'')"
proof -
  have old: "\<forall>r \<in> set (db tn). stamps_within (now e) (r ''created_on'') (r ''updated_on'')"
    using inv T stamps_within_mono by blast
  show ?thesis
  proof (cases s)
    case (Insert tn' vals)
    from ex [unfolded Insert] obtain t where
      t: "find (\<lambda>t. tablename t = tn') metadata = Some t"
      and db': "db' = db(tn' := db tn' @ [insert_row (columns t) e vals])"
      using execute_Insert_result by blast
    show ?thesis
    proof (cases "tn' = tn")
      case True
      with tn t have tt: "t = User \<or> t = UserTypeDefinition" by (rule_tac stamped_table) auto
      from ns Insert have "map_of vals ''created_on'' = None" "map_of vals ''updated_on'' = None"
        by (simp_all add: not_supplied)
      then have "stamps_within (now e) (insert_row (columns t) e vals ''created_on'')
                   (insert_row (columns t) e vals ''updated_on'')"
        by (simp add: insert_row_stamps [OF tt])
      with old True db' show ?thesis by simp
    next
      case False
      with old db' show ?thesis by simp
    qed
  next
    case (Update tn' w sets)
    obtain k v where w: "w = (k, v)" by (cases w)
    from ex [unfolded Update w] obtain t where
      t: "find (\<lambda>t. tablename t = tn') metadata = Some t"
      and db': "db' = db(tn' := map (\<lambda>r. if r k = Some v then update_row (columns t) e sets r else r)
                                 (db tn'))"
      using execute_Update_result by blast
    show ?thesis
    proof (cases "tn' = tn")
      case True
      with tn t have tt: "t = User \<or> t = UserTypeDefinition" by (rule_tac stamped_table) auto
      from ns Update have m: "map_of sets ''created_on'' = None" "map_of sets ''updated_on'' = None"
        by (simp_all add: not_supplied)
      have "stamps_within (now e) (update_row (columns t) e sets r ''created_on'')
              (update_row (columns t) e sets r ''updated_on'')"
        if "r \<in> set (db tn)" for r
      proof -
        from inv that T have "stamps_within (now e) (r ''created_on'') (Some (VTime (now e)))"
          using stamps_within_touch by blast
        with m show ?thesis by (simp add: update_row_stamps [OF tt])
      qed
      with old True db' show ?thesis by auto
    next
      case False
      with old db' show ?thesis by simp
    qed
  next
    case (Delete tn' w)
    obtain k v where w: "w = (k, v)" by (cases w)
    from ex [unfolded Delete w] have "db' = db(tn' := filter (\<lambda>r. r k \<noteq> Some v) (db tn'))"
      by (rule execute_Delete_result)
    with old show ?thesis by auto
  qed
qed

lemma run_stamps:
  assumes tn: "tn = ''users'' \<or> tn = ''user_type_definitions''"
  shows "\<forall>r \<in> set (db tn). stamps_within T (r ''created_on'') (r ''updated_on'')
    \<Longrightarrow> \<forall>x \<in> set ss. T \<le> now (fst x) \<and> \<not> supplies_timestamps (snd x)
    \<Longrightarrow> sorted (map (now \<circ> fst) ss)
    \<Longrightarrow> \<forall>r \<in> set (run metadata ss db tn). stamps_ordered (r ''created_on'') (r ''updated_on'')"
proof (induction ss arbitrary: db T)
  case Nil
  then show ?case using stamps_within_ordered by auto
next
  case (Cons a ss)
  obtain e s where a: "a = (e, s)" by (cases a)
  from Cons.prems(2) a have T: "T \<le> now e" and ns: "\<not> supplies_timestamps s" by auto
  from Cons.prems(3) have srt: "sorted (map (now \<circ> fst) ss)"
    by (simp add: comp_def)
  from Cons.prems(2,3) a
  have rest: "\<forall>x \<in> set ss. now e \<le> now (fst x) \<and> \<not> supplies_timestamps (snd x)"
    by (auto simp: comp_def)
  show ?case
  proof (cases "execute metadata e s db")
    case (Inl err)
    have h: "\<forall>r \<in> set (db tn). stamps_within (now e) (r ''created_on'') (r ''updated_on'')"
      using Cons.prems(1) T stamps_within_mono by blast
    from Cons.IH [where db = db and T = "now e", OF h rest srt] Inl a show ?thesis by simp
  next
    case (Inr db')
    have h: "\<forall>r \<in> set (db' tn). stamps_within (now e) (r ''created_on'') (r ''updated_on'')"
      by (rule execute_stamps [OF tn Cons.prems(1) T ns Inr])
    from Cons.IH [where db = db' and T = "now e", OF h rest srt] Inr a show ?thesis by simp
  qed
qed

lemma reachable_stamps:
  assumes tn: "tn = ''users'' \<or> tn = ''user_type_definitions''"
    and ns: "\<not> list_ex supplies_timestamps (map snd ss)"
    and srt: "sorted (map (now \<circ> fst) ss)"
  shows "\<forall>r \<in> set (run metadata ss empty_db tn). stamps_ordered (r ''created_on'') (r ''updated_on'')"
proof (cases ss)
  case Nil
  then show ?thesis by (simp add: empty_db_def)
next
  case (Cons a ss')
  have 1: "\<forall>r \<in> set (empty_db tn). stamps_within (now (fst a)) (r ''created_on'') (r ''updated_on'')"
    by (simp add: empty_db_def)
  have 2: "\<forall>x \<in> set ss. now (fst a) \<le> now (fst x) \<and> \<not> supplies_timestamps (snd x)"
    using ns srt Cons by (auto simp: list_ex_iff comp_def)
  show ?thesis
    by (rule run_stamps [where T = "now (fst a)" and db = empty_db, OF tn 1 2 srt])
qed

lemma audit_columns:
  assumes "t = User \<or> t = UserTypeDefinition"
  shows "\<exists>c \<in> set (columns t). col_name c = ''id'' \<and> not_null c"
    and "\<exists>c \<in> set (columns t). col_name c = ''created_on'' \<and> not_null c"
    and "\<exists>c \<in> set (columns t). col_name c = ''updated_on'' \<and> not_null c"
proof -
  have u: "list_all (\<lambda>k. list_ex (\<lambda>c. col_name c = k \<and> not_null c) (columns User))
             [''id'', ''created_on'', ''updated_on'']"
    by (simp add: table_defs not_null_def)
  have d: "list_all (\<lambda>k. list_ex (\<lambda>c. col_name c = k \<and> not_null c) (columns UserTypeDefinition))
             [''id'', ''created_on'', ''updated_on'']"
    by (simp add: table_defs not_null_def)
  from assms u d show "\<exists>c \<in> set (columns t). col_name c = ''id'' \<and> not_null c"
    and "\<exists>c \<in> set (columns t). col_name c = ''created_on'' \<and> not_null c"
    and "\<exists>c \<in> set (columns t). col_name c = ''updated_on'' \<and> not_null c"
    unfolding list_all_iff list_ex_iff by auto
qed

lemma not_isl_Inr: "\<not> isl x \<Longrightarrow> \<exists>y. x = Inr y"
  by (cases x) simp_all



section \<open>Inserting a row\<close>

lemma append_commits:
  assumes c: "consistent schema db"
    and t: "t \<in> set schema"
    and single: "\<And>t'. t' \<in> set schema \<Longrightarrow> tablename t' = tablename t \<Longrightarrow> t' = t"
    and nn: "\<And>c. c \<in> set (columns t) \<Longrightarrow> not_null c \<Longrightarrow> r (col_name c) \<noteq> None"
    and uq: "\<And>c v. c \<in> set (columns t) \<Longrightarrow> is_key c \<Longrightarrow> r (col_name c) = Some v
               \<Longrightarrow> v \<notin> set (column_values (db (tablename t)) (col_name c))"
    and fk: "\<And>c. c \<in> set (columns t) \<Longrightarrow> foreign_key c = None"
  shows "commit schema (db(tablename t := db (tablename t) @ [r]))
         = Inr (db(tablename t := db (tablename t) @ [r]))"
proof -
  let ?db = "db(tablename t := db (tablename t) @ [r])"
  have 1: "not_null_ok ?db t'" if t': "t' \<in> set schema" for t'
  proof (cases "tablename t' = tablename t")
    case True
    with single [OF t'] have "t' = t" by simp
    moreover from consistent_table [OF c t] have "not_null_ok db t" by simp
    ultimately show ?thesis using nn by (auto simp: not_null_ok_def list_all_iff)
  next
    case False
    with consistent_table [OF c t'] show ?thesis by (simp add: not_null_ok_def)
  qed
  have 2: "unique_ok ?db t'" if t': "t' \<in> set schema" for t'
  proof (cases "tablename t' = tablename t")
    case True
    with single [OF t'] have "t' = t" by simp
    moreover from consistent_table [OF c t] have "unique_ok db t" by simp
    ultimately show ?thesis using uq
      by (auto simp: unique_ok_def list_all_iff split: option.splits)
  next
    case False
    with consistent_table [OF c t'] show ?thesis by (simp add: unique_ok_def)
  qed
  have sub: "set (column_values (db tn) k) \<subseteq> set (column_values (?db tn) k)" for tn k
    by (auto simp: set_column_values)
  have 3: "references_ok ?db t'" if t': "t' \<in> set schema" for t'
  proof (cases "tablename t' = tablename t")
    case True
    with single [OF t'] have "t' = t" by simp
    with fk show ?thesis by (simp add: references_ok_def list_all_iff)
  next
    case False
    from consistent_table [OF c t'] have "references_ok db t'" by simp
    with False sub show ?thesis
      unfolding references_ok_def list_all_iff
      by (auto split: option.splits)
  qed
  from 1 2 3 show ?thesis
    by (simp add: commit_def violation_def list_all_iff)
qed

lemma type_definition_table:
  "t' \<in> set metadata \<Longrightarrow> tablename t' = tablename UserTypeDefinition \<Longrightarrow> t' = UserTypeDefinition"
  by (auto simp: metadata_def)

lemma type_definition_keys:
  "c \<in> set (columns UserTypeDefinition) \<Longrightarrow> is_key c \<Longrightarrow> col_name c = ''id''"
proof -
  have "list_all (\<lambda>c. is_key c \<longrightarrow> col_name c = ''id'') (columns UserTypeDefinition)"
    by (simp add: table_defs is_key_def)
  then show "c \<in> set (columns UserTypeDefinition) \<Longrightarrow> is_key c \<Longrightarrow> col_name c = ''id''"
    unfolding list_all_iff by blast
qed

lemma type_definition_no_reference:
  "c \<in> set (columns UserTypeDefinition) \<Longrightarrow> foreign_key c = None"
proof -
  have "list_all (\<lambda>c. foreign_key c = None) (columns UserTypeDefinition)"
    by (simp add: table_defs)
  then show "c \<in> set (columns UserTypeDefinition) \<Longrightarrow> foreign_key c = None"
    unfolding list_all_iff by blast
qed

lemma empty_name_row:
  "list_all (\<lambda>c. not_null c \<longrightarrow>
       insert_row (columns UserTypeDefinition) e [(''name'', VStr [])] (col_name c) \<noteq> None)
     (columns UserTypeDefinition)"
  "insert_row (columns UserTypeDefinition) e [(''name'', VStr [])] ''id'' = Some (VUuid (uuid4 e))"
  "insert_row (columns UserTypeDefinition) e [(''name'', VStr [])] ''name'' = Some (VStr [])"
  "known_columns UserTypeDefinition (map fst [(''name'', VStr [])])"
  by (simp_all add: table_defs insert_row_def insert_cell_def known_columns_def not_null_def)

lemma empty_name_accepted:
  assumes c: "consistent metadata db"
    and fresh: "VUuid (uuid4 e) \<notin> set (column_values (db ''user_type_definitions'') ''id'')"
  shows "execute metadata e (Insert ''user_type_definitions'' [(''name'', VStr [])]) db
         = Inr (db(''user_type_definitions'' := db ''user_type_definitions''
                  @ [insert_row (columns UserTypeDefinition) e [(''name'', VStr [])]]))"
proof -
  let ?r = "insert_row (columns UserTypeDefinition) e [(''name'', VStr [])]"
  have "commit metadata (db(tablename UserTypeDefinition := db (tablename UserTypeDefinition) @ [?r]))
        = Inr (db(tablename UserTypeDefinition := db (tablename UserTypeDefinition) @ [?r]))"
  proof (rule append_commits [OF c in_metadata(3)])
    fix t' assume "t' \<in> set metadata" "tablename t' = tablename UserTypeDefinition"
    then show "t' = UserTypeDefinition" by (rule type_definition_table)
  next
    fix c assume "c \<in> set (columns UserTypeDefinition)" "not_null c"
    with empty_name_row(1) [of e] show "?r (col_name c) \<noteq> None"
      unfolding list_all_iff by blast
  next
    fix c v assume cc: "c \<in> set (columns UserTypeDefinition)" "is_key c"
      and v: "?r (col_name c) = Some v"
    from type_definition_keys [OF cc] have k: "col_name c = ''id''" .
    with v empty_name_row(2) [of e] have "v = VUuid (uuid4 e)" by simp
    with fresh k show "v \<notin> set (column_values (db (tablename UserTypeDefinition)) (col_name c))"
      by simp
  next
    fix c assume "c \<in> set (columns UserTypeDefinition)"
    then show "foreign_key c = None" by (rule type_definition_no_reference)
  qed
  then have "commit metadata (db(''user_type_definitions'' := db ''user_type_definitions'' @ [?r]))
        = Inr (db(''user_type_definitions'' := db ''user_type_definitions'' @ [?r]))"
    by (simp only: tablenames)
  with empty_name_row(4) show ?thesis
    by (simp only: execute.simps find_table option.case if_False simp_thms)
qed


section \<open>Email uniqueness\<close>

text \<open>
  Claim C4. After any history of statements, the rows of \<^verbatim>\<open>users\<close> all have an email and
  no two of them have the same one; an \<^verbatim>\<open>INSERT\<close> into \<^verbatim>\<open>users\<close> whose email some row
  already has is rejected. \<^verbatim>\<open>users\<close> is the only table with an email column, so the email
  of a military user is that of its row in \<^verbatim>\<open>users\<close> and falls under the same constraint.
\<close>

theorem email_unique_across_users:
  "distinct (map (\<lambda>r. r ''email'') (run metadata ss empty_db ''users''))
   \<and> list_all (\<lambda>r. r ''email'' \<noteq> None) (run metadata ss empty_db ''users'')
   \<and> (list_ex (\<lambda>r. r ''email'' = Some v) (run metadata ss empty_db ''users'')
        \<and> map_of vals ''email'' = Some v
      \<longrightarrow> isl (execute metadata e (Insert ''users'' vals) (run metadata ss empty_db)))
   \<and> list_all (\<lambda>t. ''email'' \<in> set (map col_name (columns t)) \<longrightarrow> tablename t = ''users'') metadata"
proof -
  define db where "db = run metadata ss empty_db"
  have c: "consistent metadata db"
    unfolding db_def by (rule reachable_consistent)
  have nn: "\<forall>r \<in> set (db ''users''). r ''email'' \<noteq> None"
    using consistent_not_null [OF c in_metadata(1) email_column(1)] by simp
  have d: "distinct (column_values (db ''users'') ''email'')"
    using consistent_unique [OF c in_metadata(1) email_column(2)] by simp
  have rej: "isl (execute metadata e (Insert ''users'' vals) db)"
    if ex: "list_ex (\<lambda>r. r ''email'' = Some v) (db ''users'')" and m: "map_of vals ''email'' = Some v"
  proof (rule ccontr)
    assume "\<not> isl (execute metadata e (Insert ''users'' vals) db)"
    then obtain db' where r: "execute metadata e (Insert ''users'' vals) db = Inr db'"
      by (cases "execute metadata e (Insert ''users'' vals) db") auto
    then have db': "db' = db(''users'' := db ''users'' @ [insert_row (columns User) e vals])"
      by (auto simp: commit_def split: if_splits option.splits)
    have "distinct (column_values (db' ''users'') ''email'')"
      using consistent_unique [OF execute_consistent [OF r] in_metadata(1) email_column(2)] by simp
    with ex m show False
      by (auto simp: db' insert_row_email set_column_values list_ex_iff)
  qed
  from nn d rej email_only_in_users show ?thesis
    unfolding db_def [symmetric] by (simp add: distinct_cells list_all_iff)
qed

theorem email_unique_across_users_witness:
  "column_values (run metadata two_users empty_db ''users'') ''email''
     = [VStr ''ann@example.org'', VStr ''bob@example.org'']
   \<and> distinct (map (\<lambda>r. r ''email'') (run metadata two_users empty_db ''users''))
   \<and> isl (execute metadata \<lparr>now = 30, uuid4 = 3\<rparr>
            (Insert ''users'' [(''name'', VStr ''Ann B''), (''email'', VStr ''ann@example.org'')])
            (run metadata two_users empty_db))"
proof -
  have a: "column_values (run metadata two_users empty_db ''users'') ''email''
     = [VStr ''ann@example.org'', VStr ''bob@example.org'']"
    by code_simp
  have ex: "list_ex (\<lambda>r. r ''email'' = Some (VStr ''ann@example.org''))
              (run metadata two_users empty_db ''users'')"
    by code_simp
  have m: "map_of [(''name'', VStr ''Ann B''), (''email'', VStr ''ann@example.org'')] ''email''
             = Some (VStr ''ann@example.org'')"
    by simp
  note t = email_unique_across_users [of two_users "VStr ''ann@example.org''"
      "[(''name'', VStr ''Ann B''), (''email'', VStr ''ann@example.org'')]" "\<lparr>now = 30, uuid4 = 3\<rparr>"]
  from t have d: "distinct (map (\<lambda>r. r ''email'') (run metadata two_users empty_db ''users''))"
    by (rule conjunct1)
  from t ex m have r: "isl (execute metadata \<lparr>now = 30, uuid4 = 3\<rparr>
            (Insert ''users'' [(''name'', VStr ''Ann B''), (''email'', VStr ''ann@example.org'')])
            (run metadata two_users empty_db))"
    by blast
  show ?thesis by (intro conjI a d r)
qed


section \<open>The extension row and its base row\<close>

text \<open>
  Claim C7. \<^verbatim>\<open>military_users.id\<close> is declared as primary key and as foreign key into
  \<^verbatim>\<open>users.id\<close>; after any history of statements every row of \<^verbatim>\<open>military_users\<close> has an
  \<^verbatim>\<open>id\<close>, and exactly one row of \<^verbatim>\<open>users\<close> has that \<^verbatim>\<open>id\<close>. The mapper's discriminator
  column is \<^verbatim>\<open>user_type\<close>, and the discriminator value \<^verbatim>\<open>military_user\<close> selects the
  class \<^verbatim>\<open>MilitaryUser\<close>.
\<close>

theorem military_user_shares_id_with_one_base_row:
  "list_all (\<lambda>m. case m ''id'' of
                   None \<Rightarrow> False
                 | Some v \<Rightarrow> length (filter (\<lambda>u. u ''id'' = Some v)
                                       (run metadata ss empty_db ''users'')) = 1)
     (run metadata ss empty_db ''military_users'')
   \<and> list_ex (\<lambda>c. col_name c = ''id'' \<and> primary_key c \<and> foreign_key c = Some (''users'', ''id''))
       (columns MilitaryUser)
   \<and> polymorphic_on = ''user_type''
   \<and> map_of polymorphic_map ''military_user'' = Some MilitaryUser_class"
proof -
  have "list_all (\<lambda>m. case m ''id'' of
                   None \<Rightarrow> False
                 | Some v \<Rightarrow> length (filter (\<lambda>u. u ''id'' = Some v)
                                       (run metadata ss empty_db ''users'')) = 1)
     (run metadata ss empty_db ''military_users'')"
    unfolding list_all_iff
  proof
    fix m assume "m \<in> set (run metadata ss empty_db ''military_users'')"
    from military_row_base [OF reachable_consistent this]
    show "case m ''id'' of None \<Rightarrow> False
          | Some v \<Rightarrow> length (filter (\<lambda>u. u ''id'' = Some v) (run metadata ss empty_db ''users'')) = 1"
      by auto
  qed
  moreover have "list_ex (\<lambda>c. col_name c = ''id'' \<and> primary_key c \<and> foreign_key c = Some (''users'', ''id''))
       (columns MilitaryUser)"
    by (simp add: table_defs)
  moreover have "map_of polymorphic_map ''military_user'' = Some MilitaryUser_class"
    by (simp add: polymorphic_map_def)
  ultimately show ?thesis by (simp add: polymorphic_on_def)
qed


theorem military_user_shares_id_with_one_base_row_witness:
  "column_values (run metadata military_pair empty_db ''military_users'') ''id'' = [VUuid 7]
   \<and> column_values (run metadata military_pair empty_db ''users'') ''user_type''
       = [VStr ''military_user'']
   \<and> list_all (\<lambda>m. case m ''id'' of
                     None \<Rightarrow> False
                   | Some v \<Rightarrow> length (filter (\<lambda>u. u ''id'' = Some v)
                                         (run metadata military_pair empty_db ''users'')) = 1)
       (run metadata military_pair empty_db ''military_users'')"
proof -
  have a: "column_values (run metadata military_pair empty_db ''military_users'') ''id'' = [VUuid 7]"
    by code_simp
  have b: "column_values (run metadata military_pair empty_db ''users'') ''user_type''
       = [VStr ''military_user'']"
    by code_simp
  from military_user_shares_id_with_one_base_row [of military_pair]
  have c: "list_all (\<lambda>m. case m ''id'' of
                     None \<Rightarrow> False
                   | Some v \<Rightarrow> length (filter (\<lambda>u. u ''id'' = Some v)
                                         (run metadata military_pair empty_db ''users'')) = 1)
       (run metadata military_pair empty_db ''military_users'')"
    by (rule conjunct1)
  show ?thesis by (intro conjI a b c)
qed


section \<open>Deleting a military user\<close>




section \<open>The name of a type definition\<close>

text \<open>
  Claim C8, as the code has it. After any history of statements every row of
  \<^verbatim>\<open>user_type_definitions\<close> has a name that is not \<^verbatim>\<open>NULL\<close>, and an \<^verbatim>\<open>INSERT\<close> that gives
  no name is rejected in any database. An \<^verbatim>\<open>INSERT\<close> whose name is the empty string is
  accepted after any history, provided the generated \<^verbatim>\<open>id\<close> is not taken, and the row is
  stored with that empty name.
\<close>

theorem type_definition_name_not_null:
  "list_all (\<lambda>r. r ''name'' \<noteq> None) (run metadata ss empty_db ''user_type_definitions'')
   \<and> (map_of vals ''name'' = None \<longrightarrow>
        execute metadata e (Insert ''user_type_definitions'' vals) db = Inl NoSuchColumn
      \<or> execute metadata e (Insert ''user_type_definitions'' vals) db = Inl NotNullViolation)
   \<and> (VUuid (uuid4 e) \<notin> set (column_values (run metadata ss empty_db ''user_type_definitions'') ''id'')
        \<longrightarrow> (\<exists>r. execute metadata e (Insert ''user_type_definitions'' [(''name'', VStr [])])
                     (run metadata ss empty_db)
                   = Inr ((run metadata ss empty_db)
                            (''user_type_definitions'' :=
                               run metadata ss empty_db ''user_type_definitions'' @ [r]))
                 \<and> r ''name'' = Some (VStr [])))"
proof -
  have "\<forall>r \<in> set (run metadata ss empty_db ''user_type_definitions''). r ''name'' \<noteq> None"
    using consistent_not_null [OF reachable_consistent in_metadata(3) name_column] by simp
  then have a1: "list_all (\<lambda>r. r ''name'' \<noteq> None)
                   (run metadata ss empty_db ''user_type_definitions'')"
    by (simp add: list_all_iff)
  have rej: "execute metadata e (Insert ''user_type_definitions'' vals) db = Inl NotNullViolation"
    if m: "map_of vals ''name'' = None"
      and k: "known_columns UserTypeDefinition (map fst vals)"
  proof -
    let ?db = "db(''user_type_definitions'' :=
                 db ''user_type_definitions'' @ [insert_row (columns UserTypeDefinition) e vals])"
    have "\<not> not_null_ok ?db UserTypeDefinition"
      using name_column m
      by (auto simp: not_null_ok_def list_all_iff insert_row_name)
    then have "violation metadata ?db = Some NotNullViolation"
      by (rule violation_not_null [OF in_metadata(3)])
    with k show ?thesis by (simp add: commit_def)
  qed
  have a2: "map_of vals ''name'' = None \<longrightarrow>
        execute metadata e (Insert ''user_type_definitions'' vals) db = Inl NoSuchColumn
      \<or> execute metadata e (Insert ''user_type_definitions'' vals) db = Inl NotNullViolation"
  proof (intro impI)
    assume m: "map_of vals ''name'' = None"
    show "execute metadata e (Insert ''user_type_definitions'' vals) db = Inl NoSuchColumn
      \<or> execute metadata e (Insert ''user_type_definitions'' vals) db = Inl NotNullViolation"
    proof (cases "known_columns UserTypeDefinition (map fst vals)")
      case True
      from rej [OF m True] show ?thesis by (rule disjI2)
    next
      case False
      then have "execute metadata e (Insert ''user_type_definitions'' vals) db = Inl NoSuchColumn"
        by (simp only: execute.simps find_table option.case if_True simp_thms)
      then show ?thesis by (rule disjI1)
    qed
  qed
  have a3: "VUuid (uuid4 e) \<notin> set (column_values (run metadata ss empty_db ''user_type_definitions'') ''id'')
        \<longrightarrow> (\<exists>r. execute metadata e (Insert ''user_type_definitions'' [(''name'', VStr [])])
                     (run metadata ss empty_db)
                   = Inr ((run metadata ss empty_db)
                            (''user_type_definitions'' :=
                               run metadata ss empty_db ''user_type_definitions'' @ [r]))
                 \<and> r ''name'' = Some (VStr []))"
  proof (intro impI)
    assume fresh: "VUuid (uuid4 e)
        \<notin> set (column_values (run metadata ss empty_db ''user_type_definitions'') ''id'')"
    show "\<exists>r. execute metadata e (Insert ''user_type_definitions'' [(''name'', VStr [])])
                     (run metadata ss empty_db)
                   = Inr ((run metadata ss empty_db)
                            (''user_type_definitions'' :=
                               run metadata ss empty_db ''user_type_definitions'' @ [r]))
                 \<and> r ''name'' = Some (VStr [])"
      by (rule exI [of _ "insert_row (columns UserTypeDefinition) e [(''name'', VStr [])]"])
         (intro conjI empty_name_accepted [OF reachable_consistent fresh] empty_name_row(3))
  qed
  show ?thesis by (intro conjI a1 a2 a3)
qed

theorem type_definition_name_not_null_witness:
  "map_of [(''description'', VStr ''no name'')] ''name'' = None
   \<and> isl (execute metadata \<lparr>now = 10, uuid4 = 1\<rparr>
            (Insert ''user_type_definitions'' [(''description'', VStr ''no name'')]) empty_db)
   \<and> column_values (run metadata unnamed_type empty_db ''user_type_definitions'') ''id'' = [VUuid 1]
   \<and> list_all (\<lambda>r. r ''name'' \<noteq> None) (run metadata unnamed_type empty_db ''user_type_definitions'')
   \<and> VUuid (uuid4 \<lparr>now = 20, uuid4 = 2\<rparr>)
       \<notin> set (column_values (run metadata unnamed_type empty_db ''user_type_definitions'') ''id'')
   \<and> \<not> isl (execute metadata \<lparr>now = 20, uuid4 = 2\<rparr>
              (Insert ''user_type_definitions'' [(''name'', VStr [])])
              (run metadata unnamed_type empty_db))"
proof -
  let ?e = "\<lparr>now = 20, uuid4 = 2\<rparr>"
  have m: "map_of [(''description'', VStr ''no name'')] ''name'' = (None :: sqlval option)"
    by simp
  have a: "column_values (run metadata unnamed_type empty_db ''user_type_definitions'') ''id''
             = [VUuid 1]"
    by code_simp
  note t = type_definition_name_not_null [of unnamed_type "[(''description'', VStr ''no name'')]"
      "\<lparr>now = 10, uuid4 = 1\<rparr>" empty_db]
  from t have b: "list_all (\<lambda>r. r ''name'' \<noteq> None)
                    (run metadata unnamed_type empty_db ''user_type_definitions'')"
    by (rule conjunct1)
  from t have "map_of [(''description'', VStr ''no name'')] ''name'' = None \<longrightarrow>
        execute metadata \<lparr>now = 10, uuid4 = 1\<rparr>
          (Insert ''user_type_definitions'' [(''description'', VStr ''no name'')]) empty_db
            = Inl NoSuchColumn
      \<or> execute metadata \<lparr>now = 10, uuid4 = 1\<rparr>
          (Insert ''user_type_definitions'' [(''description'', VStr ''no name'')]) empty_db
            = Inl NotNullViolation"
    by (rule conjunct2 [THEN conjunct1])
  from this [rule_format, OF m]
  have c: "isl (execute metadata \<lparr>now = 10, uuid4 = 1\<rparr>
            (Insert ''user_type_definitions'' [(''description'', VStr ''no name'')]) empty_db)"
    by (metis sum.disc(1))
  have f: "VUuid (uuid4 ?e)
       \<notin> set (column_values (run metadata unnamed_type empty_db ''user_type_definitions'') ''id'')"
    by code_simp
  from type_definition_name_not_null [of unnamed_type _ ?e]
  have "VUuid (uuid4 ?e)
       \<notin> set (column_values (run metadata unnamed_type empty_db ''user_type_definitions'') ''id'')
        \<longrightarrow> (\<exists>r. execute metadata ?e (Insert ''user_type_definitions'' [(''name'', VStr [])])
                     (run metadata unnamed_type empty_db)
                   = Inr ((run metadata unnamed_type empty_db)
                            (''user_type_definitions'' :=
                               run metadata unnamed_type empty_db ''user_type_definitions'' @ [r]))
                 \<and> r ''name'' = Some (VStr []))"
    by (rule conjunct2 [THEN conjunct2])
  from this [rule_format, OF f] obtain r where
    "execute metadata ?e (Insert ''user_type_definitions'' [(''name'', VStr [])])
       (run metadata unnamed_type empty_db)
     = Inr ((run metadata unnamed_type empty_db)
              (''user_type_definitions'' :=
                 run metadata unnamed_type empty_db ''user_type_definitions'' @ [r]))"
    by (elim exE conjE)
  then have g: "\<not> isl (execute metadata ?e (Insert ''user_type_definitions'' [(''name'', VStr [])])
                        (run metadata unnamed_type empty_db))"
    by (simp only: sum.disc simp_thms)
  show ?thesis by (intro conjI m c a b f g)
qed

text \<open>The claim as written fails: a type definition whose name is the empty string is stored.\<close>

theorem empty_name_counterexample:
  "column_values (run metadata unnamed_type empty_db ''user_type_definitions'') ''name''
     = [VStr []]"
  by code_simp


section \<open>Identifier and audit timestamps\<close>

text \<open>
  Claim C5, as the code has it. In \<^verbatim>\<open>users\<close> and in \<^verbatim>\<open>user_type_definitions\<close>, after any
  history of statements, every row has \<^verbatim>\<open>id\<close>, \<^verbatim>\<open>created_on\<close> and \<^verbatim>\<open>updated_on\<close> not
  \<^verbatim>\<open>NULL\<close>. When no statement of the history assigns a timestamp itself and the
  statements are applied in the order of their \<^verbatim>\<open>now()\<close> values (the \<^verbatim>\<open>now()\<close> of each
  statement, which is the start of its transaction, is not before that of the statement
  applied before it), every row has \<^verbatim>\<open>updated_on\<close> not before \<^verbatim>\<open>created_on\<close>. A row inserted without timestamps has both equal to the
  statement's \<^verbatim>\<open>now()\<close>; its \<^verbatim>\<open>id\<close> is not \<^verbatim>\<open>NULL\<close>, and is the value
  \<^verbatim>\<open>uuid4()\<close> produced when the caller gave none.
\<close>

theorem audit_columns_when_server_assigned:
  assumes tn: "tn = ''users'' \<or> tn = ''user_type_definitions''"
  shows
   "list_all (\<lambda>r. r ''id'' \<noteq> None \<and> r ''created_on'' \<noteq> None \<and> r ''updated_on'' \<noteq> None)
      (run metadata ss empty_db tn)
    \<and> (\<not> list_ex supplies_timestamps (map snd ss) \<and> sorted (map (now \<circ> fst) ss) \<longrightarrow>
         list_all (\<lambda>r. stamps_ordered (r ''created_on'') (r ''updated_on''))
           (run metadata ss empty_db tn))
    \<and> (\<forall>db'. execute metadata e (Insert tn vals) db = Inr db'
               \<and> \<not> supplies_timestamps (Insert tn vals) \<longrightarrow>
         (\<exists>r. db' tn = db tn @ [r]
             \<and> r ''created_on'' = Some (VTime (now e))
             \<and> r ''updated_on'' = Some (VTime (now e))
             \<and> r ''id'' \<noteq> None
             \<and> (map_of vals ''id'' = None \<longrightarrow> r ''id'' = Some (VUuid (uuid4 e)))))"
proof -
  define t where "t = (if tn = ''users'' then User else UserTypeDefinition)"
  from tn have t: "t \<in> set metadata" "tablename t = tn" "t = User \<or> t = UserTypeDefinition"
    by (auto simp: t_def)
  have c: "consistent metadata (run metadata ss empty_db)"
    by (rule reachable_consistent)
  have nn: "r k \<noteq> None"
    if "r \<in> set (run metadata ss empty_db tn)"
      and "\<exists>c \<in> set (columns t). col_name c = k \<and> not_null c" for r k
    using consistent_not_null [OF c t(1) that(2)] that(1) t(2) by simp
  have 1: "list_all (\<lambda>r. r ''id'' \<noteq> None \<and> r ''created_on'' \<noteq> None \<and> r ''updated_on'' \<noteq> None)
      (run metadata ss empty_db tn)"
    unfolding list_all_iff
  proof (intro ballI conjI)
    fix r assume r: "r \<in> set (run metadata ss empty_db tn)"
    show "r ''id'' \<noteq> None" by (rule nn [OF r audit_columns(1) [OF t(3)]])
    show "r ''created_on'' \<noteq> None" by (rule nn [OF r audit_columns(2) [OF t(3)]])
    show "r ''updated_on'' \<noteq> None" by (rule nn [OF r audit_columns(3) [OF t(3)]])
  qed
  have 2: "\<not> list_ex supplies_timestamps (map snd ss) \<and> sorted (map (now \<circ> fst) ss) \<longrightarrow>
         list_all (\<lambda>r. stamps_ordered (r ''created_on'') (r ''updated_on''))
           (run metadata ss empty_db tn)"
    unfolding list_all_iff
  proof (intro impI, elim conjE)
    assume "\<not> list_ex supplies_timestamps (map snd ss)" and "sorted (map (now \<circ> fst) ss)"
    then show "\<forall>r \<in> set (run metadata ss empty_db tn).
                 stamps_ordered (r ''created_on'') (r ''updated_on'')"
      by (rule reachable_stamps [OF tn])
  qed
  have all3: "\<forall>db'. execute metadata e (Insert tn vals) db = Inr db'
               \<and> \<not> supplies_timestamps (Insert tn vals) \<longrightarrow>
         (\<exists>r. db' tn = db tn @ [r]
             \<and> r ''created_on'' = Some (VTime (now e))
             \<and> r ''updated_on'' = Some (VTime (now e))
             \<and> r ''id'' \<noteq> None
             \<and> (map_of vals ''id'' = None \<longrightarrow> r ''id'' = Some (VUuid (uuid4 e))))"
  proof (intro allI impI, elim conjE)
    fix db'
    assume ex: "execute metadata e (Insert tn vals) db = Inr db'"
      and ns: "\<not> supplies_timestamps (Insert tn vals)"
    from execute_Insert_result [OF ex] obtain t' where
      t': "find (\<lambda>t. tablename t = tn) metadata = Some t'"
      and db': "db' = db(tn := db tn @ [insert_row (columns t') e vals])"
      by (elim exE conjE)
    from stamped_table [OF tn t'] have tt: "t' = User \<or> t' = UserTypeDefinition" .
    from ns have m: "map_of vals ''created_on'' = None" "map_of vals ''updated_on'' = None"
      by (simp_all add: not_supplied)
    let ?r = "insert_row (columns t') e vals"
    have a: "db' tn = db tn @ [?r]" by (simp add: db')
    have b: "?r ''created_on'' = Some (VTime (now e))"
      by (simp add: insert_row_stamps(1) [OF tt] m)
    have c: "?r ''updated_on'' = Some (VTime (now e))"
      by (simp add: insert_row_stamps(2) [OF tt] m)
    have d: "?r ''id'' \<noteq> None"
      by (simp add: insert_row_stamps(3) [OF tt] split: option.splits)
    have f: "map_of vals ''id'' = None \<longrightarrow> ?r ''id'' = Some (VUuid (uuid4 e))"
      by (simp add: insert_row_stamps(3) [OF tt])
    show "\<exists>r. db' tn = db tn @ [r]
             \<and> r ''created_on'' = Some (VTime (now e))
             \<and> r ''updated_on'' = Some (VTime (now e))
             \<and> r ''id'' \<noteq> None
             \<and> (map_of vals ''id'' = None \<longrightarrow> r ''id'' = Some (VUuid (uuid4 e)))"
      by (rule exI [of _ ?r]) (intro conjI a b c d f)
  qed
  show ?thesis by (intro conjI 1 2 all3)
qed


theorem audit_columns_when_server_assigned_witness:
  "column_values (run metadata renamed empty_db ''users'') ''created_on'' = [VTime 10]
   \<and> column_values (run metadata renamed empty_db ''users'') ''updated_on'' = [VTime 20]
   \<and> list_all (\<lambda>r. stamps_ordered (r ''created_on'') (r ''updated_on''))
        (run metadata renamed empty_db ''users'')
   \<and> (\<exists>db' r. execute metadata \<lparr>now = 10, uuid4 = 1\<rparr>
                  (Insert ''users'' [(''name'', VStr ''Ann''), (''email'', VStr ''ann@example.org'')])
                  empty_db = Inr db'
         \<and> db' ''users'' = [r]
         \<and> r ''created_on'' = Some (VTime 10) \<and> r ''updated_on'' = Some (VTime 10)
         \<and> r ''id'' = Some (VUuid 1))"
proof -
  let ?e = "\<lparr>now = 10, uuid4 = 1\<rparr>"
  let ?vals = "[(''name'', VStr ''Ann''), (''email'', VStr ''ann@example.org'')]"
  let ?x = "execute metadata ?e (Insert ''users'' ?vals) empty_db"
  have tn: "''users'' = ''users'' \<or> ''users'' = ''user_type_definitions''" by simp
  note t = audit_columns_when_server_assigned [OF tn, of renamed ?e ?vals empty_db]
  have a: "column_values (run metadata renamed empty_db ''users'') ''created_on'' = [VTime 10]"
    by code_simp
  have b: "column_values (run metadata renamed empty_db ''users'') ''updated_on'' = [VTime 20]"
    by code_simp
  have pre: "\<not> list_ex supplies_timestamps (map snd renamed) \<and> sorted (map (now \<circ> fst) renamed)"
    by code_simp
  from t have "\<not> list_ex supplies_timestamps (map snd renamed) \<and> sorted (map (now \<circ> fst) renamed)
      \<longrightarrow> list_all (\<lambda>r. stamps_ordered (r ''created_on'') (r ''updated_on''))
            (run metadata renamed empty_db ''users'')"
    by (rule conjunct2 [THEN conjunct1])
  from this pre have c: "list_all (\<lambda>r. stamps_ordered (r ''created_on'') (r ''updated_on''))
        (run metadata renamed empty_db ''users'')"
    by (rule mp)
  have "\<not> isl ?x"
    by code_simp
  then have "\<exists>db'. ?x = Inr db'"
    by (rule not_isl_Inr)
  then obtain db' where ex: "?x = Inr db'" ..
  have ns: "\<not> supplies_timestamps (Insert ''users'' ?vals)" by simp
  have m: "map_of ?vals ''id'' = None" by simp
  from t have "\<forall>db'. ?x = Inr db' \<and> \<not> supplies_timestamps (Insert ''users'' ?vals) \<longrightarrow>
         (\<exists>r. db' ''users'' = empty_db ''users'' @ [r]
             \<and> r ''created_on'' = Some (VTime (now ?e))
             \<and> r ''updated_on'' = Some (VTime (now ?e))
             \<and> r ''id'' \<noteq> None
             \<and> (map_of ?vals ''id'' = None \<longrightarrow> r ''id'' = Some (VUuid (uuid4 ?e))))"
    by (rule conjunct2 [THEN conjunct2])
  from this [rule_format, OF conjI [OF ex ns]]
  obtain r where r: "db' ''users'' = empty_db ''users'' @ [r]"
    "r ''created_on'' = Some (VTime (now ?e))" "r ''updated_on'' = Some (VTime (now ?e))"
    "map_of ?vals ''id'' = None \<longrightarrow> r ''id'' = Some (VUuid (uuid4 ?e))"
    by (elim exE conjE)
  from r(1) have r1: "db' ''users'' = [r]" by (simp only: empty_db_def append_Nil)
  from r(2) have r2: "r ''created_on'' = Some (VTime 10)" by (simp only: env.simps)
  from r(3) have r3: "r ''updated_on'' = Some (VTime 10)" by (simp only: env.simps)
  from r(4) [rule_format, OF m] have r4: "r ''id'' = Some (VUuid 1)" by (simp only: env.simps)
  have d: "\<exists>db' r. ?x = Inr db'
         \<and> db' ''users'' = [r]
         \<and> r ''created_on'' = Some (VTime 10) \<and> r ''updated_on'' = Some (VTime 10)
         \<and> r ''id'' = Some (VUuid 1)"
    by (rule exI [of _ db'], rule exI [of _ r]) (intro conjI ex r1 r2 r3 r4)
  show ?thesis by (intro conjI a b c d)
qed


text \<open>
  The claim as written fails: the columns are ordinary columns with defaults, so a caller
  may give both timestamps, and a row with \<^verbatim>\<open>updated_on\<close> before \<^verbatim>\<open>created_on\<close> is stored.
\<close>

theorem backdated_timestamps_counterexample:
  "column_values (run metadata backdated empty_db ''users'') ''created_on'' = [VTime 5]
   \<and> column_values (run metadata backdated empty_db ''users'') ''updated_on'' = [VTime 3]
   \<and> \<not> stamps_ordered (Some (VTime 5)) (Some (VTime 3))"
  by code_simp

text \<open>
  The order of the \<^verbatim>\<open>now()\<close> values is needed: when the renaming transaction started
  before the creating one, no timestamp is supplied and still \<^verbatim>\<open>updated_on\<close> is before
  \<^verbatim>\<open>created_on\<close>.
\<close>

lemma overlapping_transactions:
  "column_values (run metadata overlapping empty_db ''users'') ''created_on'' = [VTime 11]
   \<and> column_values (run metadata overlapping empty_db ''users'') ''updated_on'' = [VTime 10]
   \<and> \<not> list_ex supplies_timestamps (map snd overlapping)
   \<and> \<not> sorted (map (now \<circ> fst) overlapping)"
  by code_simp

end
